theory Spec2Isabelle
  imports Main
begin

section \<open>Python values and the object store\<close>

text \<open>
  The command-line module \<^verbatim>\<open>janus_core/cli.py\<close> passes dictionaries and lists around by
  reference and updates two of them in place (the list handed to
  \<^verbatim>\<open>parse_typer_dicts\<close> and the optimizer options in \<^verbatim>\<open>geomopt\<close>). Values are
  therefore either immediate (\<^verbatim>\<open>None\<close>, booleans, integers, strings, paths) or a
  reference into a store of mutable objects. The store is a list of objects, an address is
  an index into it, and allocation appends. The other kinds of value a literal can denote
  (floats, bytes, tuples, sets) are left out: the module treats them as it treats an
  integer, as values that are no dictionary.
\<close>

type_synonym addr = nat

datatype pyval =
    PNone
  | PBool bool
  | PInt int
  | PStr string
  | PPath string
  | PRef addr

text \<open>
  \<open>TyperDict v\<close> is an instance of the class \<^verbatim>\<open>TyperDict\<close> whose attribute
  \<^verbatim>\<open>value\<close> holds \<open>v\<close>. A dictionary keeps its items in insertion order.
\<close>

datatype pyobj =
    ListObj "pyval list"
  | DictObj "(pyval \<times> pyval) list"
  | TyperDict pyval

type_synonym heap = "pyobj list"

definition lookup :: "heap \<Rightarrow> addr \<Rightarrow> pyobj option" where
  "lookup h a = (if a < length h then Some (h ! a) else None)"

definition alloc :: "pyobj \<Rightarrow> heap \<Rightarrow> addr \<times> heap" where
  "alloc ob h = (length h, h @ [ob])"

definition store :: "addr \<Rightarrow> pyobj \<Rightarrow> heap \<Rightarrow> heap" where
  "store a ob h = h[a := ob]"

text \<open>
  The messages of the \<^verbatim>\<open>ValueError\<close>s raised in the module. The first one is the
  f-string \<^verbatim>\<open>f"{typer_dicts[i]} must be passed as a dictionary"\<close>; the value it
  formats is kept as it is. The second is
  \<^verbatim>\<open>"--vectors-only requires --fully-opt to be set"\<close>, the third
  \<^verbatim>\<open>"'trajectory' must be passed through the --traj option"\<close>. The last is the
  interpreter's own, for a list assignment whose two sides differ in length.
\<close>

datatype message =
    MustBeDictionary pyval
  | VectorsOnlyRequiresFullyOpt
  | TrajectoryThroughTrajOption
  | UnpackMismatch

text \<open>
  An exception that ends a command. \<open>ValueError m\<close> is a \<^verbatim>\<open>ValueError\<close> raised by a
  statement of this module, with message \<open>m\<close>; \<^verbatim>\<open>AttributeError\<close> and
  \<^verbatim>\<open>TypeError\<close> are the interpreter's, for an attribute or an operation the operand
  does not have. \<open>Raised x\<close> is an exception that comes out of a collaborator (structure
  loading, calculator set-up, the optimizer, the literal decoder), \<open>x\<close> describing it.
\<close>

datatype error =
    ValueError message
  | AttributeError
  | TypeError
  | Raised string

section \<open>The keyword-dictionary helpers\<close>

text \<open>
  Truth value of an object, as the conditional expression \<^verbatim>\<open>x if typer_dict else y\<close>
  tests it. The class \<^verbatim>\<open>TyperDict\<close> defines neither \<^verbatim>\<open>__bool__\<close> nor
  \<^verbatim>\<open>__len__\<close>, so each of its instances is true.
\<close>

fun truthy :: "heap \<Rightarrow> pyval \<Rightarrow> bool" where
  "truthy h PNone = False"
| "truthy h (PBool b) = b"
| "truthy h (PInt n) = (n \<noteq> 0)"
| "truthy h (PStr s) = (s \<noteq> [])"
| "truthy h (PPath p) = True"
| "truthy h (PRef a) =
     (case lookup h a of
        Some (ListObj xs) \<Rightarrow> xs \<noteq> []
      | Some (DictObj kvs) \<Rightarrow> kvs \<noteq> []
      | _ \<Rightarrow> True)"

text \<open>The attribute access \<^verbatim>\<open>typer_dict.value\<close>: only a \<^verbatim>\<open>TyperDict\<close> has it.\<close>

fun getattr_value :: "heap \<Rightarrow> pyval \<Rightarrow> error + pyval" where
  "getattr_value h (PRef a) =
     (case lookup h a of Some (TyperDict v) \<Rightarrow> Inr v | _ \<Rightarrow> Inl AttributeError)"
| "getattr_value h _ = Inl AttributeError"

text \<open>\<^verbatim>\<open>isinstance(x, dict)\<close>\<close>

fun isinstance_dict :: "heap \<Rightarrow> pyval \<Rightarrow> bool" where
  "isinstance_dict h (PRef a) = (case lookup h a of Some (DictObj kvs) \<Rightarrow> True | _ \<Rightarrow> False)"
| "isinstance_dict h _ = False"

text \<open>
  \<^verbatim>\<open>parse_dict_class\<close> wraps whatever \<^verbatim>\<open>ast.literal_eval\<close> decodes in a new
  \<^verbatim>\<open>TyperDict\<close>. The decoder belongs to the Python standard library and is a parameter
  here: given the text and the store it either raises or returns the decoded value and the
  store holding the objects it built.
\<close>

type_synonym decoder = "string \<Rightarrow> heap \<Rightarrow> string + (pyval \<times> heap)"

definition parse_dict_class :: "decoder \<Rightarrow> string \<Rightarrow> heap \<Rightarrow> heap \<times> (error + pyval)" where
  "parse_dict_class literal_eval val h =
     (case literal_eval val h of
        Inl x \<Rightarrow> (h, Inl (Raised x))
      | Inr (v, h1) \<Rightarrow> (case alloc (TyperDict v) h1 of (t, h2) \<Rightarrow> (h2, Inr (PRef t))))"

text \<open>
  One round of the loop of \<^verbatim>\<open>parse_typer_dicts\<close>, at index \<open>i\<close> of the list stored at
  \<open>l\<close>:
  \<^verbatim>\<open>
      typer_dicts[i] = typer_dict.value if typer_dict else {}
      if not isinstance(typer_dicts[i], dict):
          raise ValueError(f"{typer_dicts[i]} must be passed as a dictionary")
  \<close>
  An exception leaves the store as it is at that moment, so the store is returned in
  both cases. At an index past the end of the list the iterator is exhausted and nothing
  happens.
\<close>

definition parse_typer_dicts_step :: "addr \<Rightarrow> nat \<Rightarrow> heap \<Rightarrow> heap \<times> (error + unit)" where
  "parse_typer_dicts_step l i h =
     (case lookup h l of
        Some (ListObj xs) \<Rightarrow>
          if i < length xs then
            let typer_dict = xs ! i in
            (case (if truthy h typer_dict
                   then (h, getattr_value h typer_dict)
                   else (case alloc (DictObj []) h of (d, h1) \<Rightarrow> (h1, Inr (PRef d))))
             of
               (h1, Inl e) \<Rightarrow> (h1, Inl e)
             | (h1, Inr v) \<Rightarrow>
                 let h2 = store l (ListObj (xs[i := v])) h1 in
                 if \<not> isinstance_dict h2 v
                 then (h2, Inl (ValueError (MustBeDictionary v)))
                 else (h2, Inr ()))
          else (h, Inr ())
      | _ \<Rightarrow> (h, Inl TypeError))"

text \<open>
  \<^verbatim>\<open>for i, typer_dict in enumerate(typer_dicts)\<close>: the rounds run at the indices
  \<open>0, 1, ...\<close> in order and stop at the first exception.
\<close>

fun parse_typer_dicts_loop :: "addr \<Rightarrow> nat list \<Rightarrow> heap \<Rightarrow> heap \<times> (error + unit)" where
  "parse_typer_dicts_loop l [] h = (h, Inr ())"
| "parse_typer_dicts_loop l (i # is) h =
     (case parse_typer_dicts_step l i h of
        (h1, Inl e) \<Rightarrow> (h1, Inl e)
      | (h1, Inr u) \<Rightarrow> parse_typer_dicts_loop l is h1)"

text \<open>
  \<^verbatim>\<open>parse_typer_dicts(typer_dicts)\<close>, the argument being a reference to a list. The
  rounds never change the length of the list, so the indices visited are those of the list
  on entry. The function returns its argument. Both callers pass a list; an argument of
  another kind is outside the declared type \<^verbatim>\<open>list[TyperDict]\<close> and is reported as a
  \<^verbatim>\<open>TypeError\<close>.
\<close>

definition parse_typer_dicts :: "pyval \<Rightarrow> heap \<Rightarrow> heap \<times> (error + pyval)" where
  "parse_typer_dicts typer_dicts h =
     (case typer_dicts of
        PRef l \<Rightarrow>
          (case lookup h l of
             Some (ListObj xs) \<Rightarrow>
               (case parse_typer_dicts_loop l [0..<length xs] h of
                  (h1, Inl e) \<Rightarrow> (h1, Inl e)
                | (h1, Inr u) \<Rightarrow> (h1, Inr typer_dicts))
           | _ \<Rightarrow> (h, Inl TypeError))
      | _ \<Rightarrow> (h, Inl TypeError))"

section \<open>Collaborators and the record of their calls\<close>

text \<open>
  \<^verbatim>\<open>SinglePoint\<close> (structure loading and calculator set-up), its method
  \<^verbatim>\<open>run\<close> and \<^verbatim>\<open>optimize\<close> are imported from other modules. They are parameters:
  each is given the store and its arguments, and either raises (the result describes the
  exception) or returns. What they do to the objects they are handed is outside this
  development. The arguments of a call
  are recorded under the names of the keywords of the source.
\<close>

record single_point_args =
  sp_struct_path :: pyval
  sp_architecture :: string
  sp_device :: string
  sp_read_kwargs :: pyval
  sp_calc_kwargs :: pyval
  sp_log_kwargs :: pyval

record run_args =
  run_properties :: pyval
  run_write_results :: bool
  run_write_kwargs :: pyval

text \<open>
  \<open>opt_star_kwargs\<close> are the keyword arguments that \<^verbatim>\<open>**fully_opt_dict\<close> unpacks into
  the call of \<^verbatim>\<open>optimize\<close>. The force threshold is a float that is only handed on; its
  type is left open.
\<close>

record ('st, 'f) optimize_args =
  opt_struct :: 'st
  opt_fmax :: 'f
  opt_steps :: int
  opt_filter_kwargs :: pyval
  opt_star_kwargs :: "(string \<times> pyval) list"
  opt_opt_kwargs :: pyval
  opt_write_results :: bool
  opt_write_kwargs :: pyval
  opt_traj_kwargs :: pyval
  opt_log_kwargs :: pyval

record ('sp, 'st, 'f) collaborators =
  SinglePoint :: "heap \<Rightarrow> single_point_args \<Rightarrow> string + 'sp"
  struct :: "'sp \<Rightarrow> 'st"
  run :: "heap \<Rightarrow> 'sp \<Rightarrow> run_args \<Rightarrow> string option"
  optimize :: "heap \<Rightarrow> ('st, 'f) optimize_args \<Rightarrow> string option"

text \<open>A call of a collaborator, with the store as it is when the call is made.\<close>

datatype ('st, 'f) call =
    SinglePointCall heap single_point_args
  | RunCall heap run_args
  | OptimizeCall heap "('st, 'f) optimize_args"

section \<open>Reading and updating objects\<close>

text \<open>The items of a dictionary and of a list, when the value refers to one.\<close>

definition dict_items :: "heap \<Rightarrow> pyval \<Rightarrow> (pyval \<times> pyval) list option" where
  "dict_items h v =
     (case v of
        PRef a \<Rightarrow> (case lookup h a of Some (DictObj kvs) \<Rightarrow> Some kvs | _ \<Rightarrow> None)
      | _ \<Rightarrow> None)"

definition list_items :: "heap \<Rightarrow> pyval \<Rightarrow> pyval list option" where
  "list_items h v =
     (case v of
        PRef a \<Rightarrow> (case lookup h a of Some (ListObj xs) \<Rightarrow> Some xs | _ \<Rightarrow> None)
      | _ \<Rightarrow> None)"

text \<open>
  The list assignment \<^verbatim>\<open>[a, b, ...] = value\<close> with \<open>n\<close> names on the left, for
  a value that is a list.
\<close>

definition unpack :: "nat \<Rightarrow> heap \<Rightarrow> pyval \<Rightarrow> error + pyval list" where
  "unpack n h v =
     (case list_items h v of
        Some xs \<Rightarrow> if length xs = n then Inr xs else Inl (ValueError UnpackMismatch)
      | None \<Rightarrow> Inl TypeError)"

text \<open>
  \<^verbatim>\<open>key in d\<close> and \<^verbatim>\<open>d[key] = v\<close> for a dictionary \<open>d\<close>. Assignment replaces the value
  of a key that is there and appends a new key otherwise. Both are used on the optimizer
  options only, which \<^verbatim>\<open>parse_typer_dicts\<close> has checked to be a dictionary; any other
  operand is reported as a \<^verbatim>\<open>TypeError\<close>. The key looked for is a string, and a
  string equals no key of another type.
\<close>

definition contains :: "heap \<Rightarrow> pyval \<Rightarrow> pyval \<Rightarrow> error + bool" where
  "contains h k d =
     (case dict_items h d of
        Some kvs \<Rightarrow> Inr (k \<in> set (map fst kvs))
      | None \<Rightarrow> Inl TypeError)"

fun dict_update :: "pyval \<Rightarrow> pyval \<Rightarrow> (pyval \<times> pyval) list \<Rightarrow> (pyval \<times> pyval) list" where
  "dict_update k v [] = [(k, v)]"
| "dict_update k v ((k', v') # kvs) =
     (if k' = k then (k', v) # kvs else (k', v') # dict_update k v kvs)"

definition setitem :: "pyval \<Rightarrow> pyval \<Rightarrow> pyval \<Rightarrow> heap \<Rightarrow> error + heap" where
  "setitem d k v h =
     (case d of
        PRef a \<Rightarrow>
          (case lookup h a of
             Some (DictObj kvs) \<Rightarrow> Inr (store a (DictObj (dict_update k v kvs)) h)
           | _ \<Rightarrow> Inl TypeError)
      | _ \<Rightarrow> Inl TypeError)"

section \<open>The commands\<close>

text \<open>
  \<^verbatim>\<open>singlepoint\<close>. A command returns the store it leaves, the calls of collaborators
  it has made, in order, and the exception it ends with, if any.
\<close>

definition singlepoint ::
    "('sp, 'st, 'f) collaborators \<Rightarrow> pyval \<Rightarrow> string \<Rightarrow> string \<Rightarrow> pyval \<Rightarrow>
     pyval \<Rightarrow> pyval \<Rightarrow> pyval \<Rightarrow> pyval \<Rightarrow> heap \<Rightarrow>
     heap \<times> ('st, 'f) call list \<times> error option" where
  "singlepoint c struct_path architecture device properties
       read_kwargs calc_kwargs write_kwargs log_file h =
     (case alloc (ListObj [read_kwargs, calc_kwargs, write_kwargs]) h of (l, h0) \<Rightarrow>
      case parse_typer_dicts (PRef l) h0 of
        (h1, Inl e) \<Rightarrow> (h1, [], Some e)
      | (h1, Inr r) \<Rightarrow>
      case unpack 3 h1 r of
        Inl e \<Rightarrow> (h1, [], Some e)
      | Inr kw \<Rightarrow>
      case alloc (DictObj [(PStr ''filename'', log_file), (PStr ''filemode'', PStr ''w'')]) h1
      of (log_kwargs, h2) \<Rightarrow>
      let sp = \<lparr> sp_struct_path = struct_path, sp_architecture = architecture,
                 sp_device = device, sp_read_kwargs = kw ! 0, sp_calc_kwargs = kw ! 1,
                 sp_log_kwargs = PRef log_kwargs \<rparr> in
      case SinglePoint c h2 sp of
        Inl x \<Rightarrow> (h2, [SinglePointCall h2 sp], Some (Raised x))
      | Inr s_point \<Rightarrow>
      let ra = \<lparr> run_properties = properties, run_write_results = True,
                 run_write_kwargs = kw ! 2 \<rparr> in
      (h2, [SinglePointCall h2 sp, RunCall h2 ra], map_option Raised (run c h2 s_point ra)))"

text \<open>
  \<^verbatim>\<open>geomopt\<close>, statement by statement: normalise the four dictionaries, check
  \<^verbatim>\<open>--vectors-only\<close>, build the \<^verbatim>\<open>SinglePoint\<close>, check the key
  \<^verbatim>\<open>"trajectory"\<close>, write it into the optimizer options, derive the trajectory, filter
  and log dictionaries, and call \<^verbatim>\<open>optimize\<close>. The option \<^verbatim>\<open>traj_file\<close> is
  \<^verbatim>\<open>None\<close> or a string, \<^verbatim>\<open>log_file\<close> a path.
\<close>

definition geomopt ::
    "('sp, 'st, 'f) collaborators \<Rightarrow> pyval \<Rightarrow> 'f \<Rightarrow> int \<Rightarrow> string \<Rightarrow> string \<Rightarrow>
     bool \<Rightarrow> bool \<Rightarrow> pyval \<Rightarrow> pyval \<Rightarrow> pyval \<Rightarrow> pyval \<Rightarrow> pyval \<Rightarrow> pyval \<Rightarrow> heap \<Rightarrow>
     heap \<times> ('st, 'f) call list \<times> error option" where
  "geomopt c struct_path fmax steps architecture device fully_opt vectors_only
       read_kwargs calc_kwargs opt_kwargs write_kwargs traj_file log_file h =
     (case alloc (ListObj [read_kwargs, calc_kwargs, opt_kwargs, write_kwargs]) h of (l, h0) \<Rightarrow>
      case parse_typer_dicts (PRef l) h0 of
        (h1, Inl e) \<Rightarrow> (h1, [], Some e)
      | (h1, Inr r) \<Rightarrow>
      case unpack 4 h1 r of
        Inl e \<Rightarrow> (h1, [], Some e)
      | Inr kw \<Rightarrow>
      if \<not> fully_opt \<and> vectors_only
      then (h1, [], Some (ValueError VectorsOnlyRequiresFullyOpt))
      else
      case alloc (DictObj [(PStr ''filename'', log_file), (PStr ''filemode'', PStr ''w'')]) h1
      of (log_kwargs, h2) \<Rightarrow>
      let sp = \<lparr> sp_struct_path = struct_path, sp_architecture = architecture,
                 sp_device = device, sp_read_kwargs = kw ! 0, sp_calc_kwargs = kw ! 1,
                 sp_log_kwargs = PRef log_kwargs \<rparr> in
      case SinglePoint c h2 sp of
        Inl x \<Rightarrow> (h2, [SinglePointCall h2 sp], Some (Raised x))
      | Inr s_point \<Rightarrow>
      case contains h2 (PStr ''trajectory'') (kw ! 2) of
        Inl e \<Rightarrow> (h2, [SinglePointCall h2 sp], Some e)
      | Inr True \<Rightarrow> (h2, [SinglePointCall h2 sp], Some (ValueError TrajectoryThroughTrajOption))
      | Inr False \<Rightarrow>
      case setitem (kw ! 2) (PStr ''trajectory'')
             (if truthy h2 traj_file then traj_file else PNone) h2 of
        Inl e \<Rightarrow> (h2, [SinglePointCall h2 sp], Some e)
      | Inr h3 \<Rightarrow>
      case (if truthy h3 traj_file
            then (case alloc (DictObj [(PStr ''filename'', traj_file)]) h3 of
                    (d, h') \<Rightarrow> (PRef d, h'))
            else (PNone, h3))
      of (traj_kwargs, h4) \<Rightarrow>
      case (if fully_opt
            then (case alloc (DictObj [(PStr ''hydrostatic_strain'', PBool vectors_only)]) h4 of
                    (d, h') \<Rightarrow> (PRef d, h'))
            else (PNone, h4))
      of (filter_kwargs, h5) \<Rightarrow>
      let fully_opt_dict = (if fully_opt then [] else [(''filter_func'', PNone)]) in
      case alloc (DictObj [(PStr ''filename'', log_file), (PStr ''filemode'', PStr ''a'')]) h5
      of (log_kwargs_a, h6) \<Rightarrow>
      let oa = \<lparr> opt_struct = struct c s_point, opt_fmax = fmax, opt_steps = steps,
                 opt_filter_kwargs = filter_kwargs, opt_star_kwargs = fully_opt_dict,
                 opt_opt_kwargs = kw ! 2, opt_write_results = True,
                 opt_write_kwargs = kw ! 3, opt_traj_kwargs = traj_kwargs,
                 opt_log_kwargs = PRef log_kwargs_a \<rparr> in
      (h6, [SinglePointCall h2 sp, OptimizeCall h6 oa], map_option Raised (optimize c h6 oa)))"

section \<open>Notions used in the statements\<close>

text \<open>
  An optional dictionary input, as the command line hands it over: \<^verbatim>\<open>None\<close> when
  the flag was not given, an instance of \<^verbatim>\<open>TyperDict\<close> when it was. The value it
  wraps is any value; a reference among them points into the store.
\<close>

definition in_store :: "heap \<Rightarrow> pyval \<Rightarrow> bool" where
  "in_store h v = (case v of PRef a \<Rightarrow> a < length h | _ \<Rightarrow> True)"

definition optional_typer_dict :: "heap \<Rightarrow> pyval \<Rightarrow> bool" where
  "optional_typer_dict h x =
     (case x of
        PNone \<Rightarrow> True
      | PRef t \<Rightarrow> (case lookup h t of Some (TyperDict v) \<Rightarrow> in_store h v | _ \<Rightarrow> False)
      | _ \<Rightarrow> False)"

text \<open>
  \<open>frame l h h'\<close>: the store \<open>h'\<close> extends \<open>h\<close>, every object of \<open>h\<close> other than the
  list at \<open>l\<close> is as it was, and the list at \<open>l\<close> has kept its length.
\<close>

definition frame :: "addr \<Rightarrow> heap \<Rightarrow> heap \<Rightarrow> bool" where
  "frame l h h' \<longleftrightarrow>
     length h \<le> length h' \<and> (\<forall>a<length h. a \<noteq> l \<longrightarrow> h' ! a = h ! a) \<and>
     (\<exists>xs ys. lookup h l = Some (ListObj xs) \<and> lookup h' l = Some (ListObj ys)
        \<and> length ys = length xs)"

text \<open>
  What a caller of \<^verbatim>\<open>parse_typer_dicts\<close> gets to see: the exception, or the items
  of every element of the returned list (\<open>None\<close> for an element that is no dictionary).
\<close>

definition normalized_kwargs ::
    "heap \<times> (error + pyval) \<Rightarrow> error + (pyval \<times> pyval) list option list option" where
  "normalized_kwargs out =
     (case out of
        (h, Inl e) \<Rightarrow> Inl e
      | (h, Inr r) \<Rightarrow> Inr (map_option (map (dict_items h)) (list_items h r)))"

text \<open>
  Instances of the parameters, on which the theorems are run: collaborators that always
  return, collaborators whose structure loading fails, and a decoder for a handful of literals that agrees with
  \<^verbatim>\<open>ast.literal_eval\<close> on them (and rejects every other text, which the library
  does not).
\<close>

definition returning :: "(unit, unit, int) collaborators" where
  "returning =
     \<lparr> SinglePoint = (\<lambda>h a. Inr ()), struct = (\<lambda>s. ()), run = (\<lambda>h s a. None),
       optimize = (\<lambda>h a. None) \<rparr>"

definition failing_load :: "(unit, unit, int) collaborators" where
  "failing_load = returning \<lparr> SinglePoint := (\<lambda>h a. Inl ''FileNotFoundError'') \<rparr>"

definition literal_eval_sample :: decoder where
  "literal_eval_sample s h =
     (if s = ''{}'' then Inr (PRef (length h), h @ [DictObj []])
      else if s = ''[]'' then Inr (PRef (length h), h @ [ListObj []])
      else if s = ''None'' then Inr (PNone, h)
      else if s = ''True'' then Inr (PBool True, h)
      else if s = ''False'' then Inr (PBool False, h)
      else if s = ''5'' then Inr (PInt 5, h)
      else Inl ''SyntaxError'')"

section \<open>The store under \<^verbatim>\<open>parse_typer_dicts\<close>\<close>

lemma lookup_Some_iff: "lookup h a = Some ob \<longleftrightarrow> a < length h \<and> h ! a = ob"
  by (auto simp: lookup_def)

lemma lookup_append_old: "a < length h \<Longrightarrow> lookup (h @ obs) a = lookup h a"
  by (simp add: lookup_def nth_append)

lemma lookup_append_new: "lookup (h @ [ob]) (length h) = Some ob"
  by (simp add: lookup_def)

lemma lookup_store: "lookup (store l ob h) a = (if a = l \<and> l < length h then Some ob else lookup h a)"
  by (auto simp: lookup_def store_def)

lemma isinstance_dict_store_list:
  "lookup h l = Some (ListObj xs) \<Longrightarrow> isinstance_dict (store l (ListObj ys) h) v = isinstance_dict h v"
  by (cases v) (auto simp: lookup_store lookup_Some_iff split: option.splits pyobj.splits)

lemma step_absent:
  assumes "lookup h l = Some (ListObj xs)" "i < length xs" "xs ! i = PNone"
  shows "parse_typer_dicts_step l i h =
           (store l (ListObj (xs[i := PRef (length h)])) (h @ [DictObj []]), Inr ())"
proof -
  have l: "l < length h" using assms(1) by (simp add: lookup_Some_iff)
  show ?thesis using assms l
    by (simp add: parse_typer_dicts_step_def alloc_def lookup_append_old lookup_append_new lookup_store)
qed

lemma step_present:
  assumes "lookup h l = Some (ListObj xs)" "i < length xs" "xs ! i = PRef t"
    "lookup h t = Some (TyperDict v)"
  shows "parse_typer_dicts_step l i h =
           (store l (ListObj (xs[i := v])) h,
            if isinstance_dict h v then Inr () else Inl (ValueError (MustBeDictionary v)))"
  using assms
  by (auto simp: parse_typer_dicts_step_def Let_def isinstance_dict_store_list)

lemma frame_refl: "lookup h l = Some (ListObj xs) \<Longrightarrow> frame l h h"
  by (simp add: frame_def)

lemma frame_trans: "frame l h h1 \<Longrightarrow> frame l h1 h2 \<Longrightarrow> frame l h h2"
  by (auto simp: frame_def)

lemma frame_lookup:
  "frame l h h' \<Longrightarrow> a < length h \<Longrightarrow> a \<noteq> l \<Longrightarrow> lookup h' a = lookup h a"
  by (auto simp: frame_def lookup_def)

lemma frame_typer_dict:
  "frame l h h' \<Longrightarrow> lookup h t = Some (TyperDict v) \<Longrightarrow> lookup h' t = Some (TyperDict v)"
  by (auto simp: frame_def lookup_def split: if_splits)

lemma frame_isinstance_dict:
  "frame l h h' \<Longrightarrow> isinstance_dict h v \<Longrightarrow> isinstance_dict h' v"
  by (cases v) (auto simp: frame_def lookup_def split: if_splits pyobj.splits)

lemma frame_optional:
  "frame l h h' \<Longrightarrow> optional_typer_dict h x \<Longrightarrow> optional_typer_dict h' x"
  by (cases x)
    (auto simp: optional_typer_dict_def in_store_def frame_def lookup_def
      split: if_splits pyobj.splits option.splits pyval.splits)

lemma frame_isinstance_dict_back:
  "frame l h h' \<Longrightarrow> in_store h v \<Longrightarrow> isinstance_dict h' v \<Longrightarrow> isinstance_dict h v"
  by (cases v) (auto simp: in_store_def frame_def lookup_def split: if_splits pyobj.splits)

lemma optional_typer_dict_in_store:
  "optional_typer_dict h (PRef t) \<Longrightarrow> lookup h t = Some (TyperDict v) \<Longrightarrow> in_store h v"
  by (simp add: optional_typer_dict_def)

lemma frame_store_list:
  "lookup h l = Some (ListObj xs) \<Longrightarrow> length ys = length xs \<Longrightarrow>
   frame l h (store l (ListObj ys) (h @ obs))"
  by (auto simp: frame_def lookup_def store_def nth_append split: if_splits)

lemma step_frame:
  assumes "lookup h l = Some (ListObj xs)" "parse_typer_dicts_step l i h = (h1, res)"
  shows "frame l h h1 \<and>
         (\<exists>ys. lookup h1 l = Some (ListObj ys) \<and> (\<forall>j. j \<noteq> i \<longrightarrow> ys ! j = xs ! j))"
proof -
  have l: "l < length h" using assms(1) by (simp add: lookup_Some_iff)
  have st: "\<And>v obs. lookup (store l (ListObj (xs[i := v])) (h @ obs)) l = Some (ListObj (xs[i := v]))"
    using l by (simp add: lookup_store)
  show ?thesis
    using assms frame_refl[OF assms(1)] frame_store_list[OF assms(1), of _ "[]"]
      frame_store_list[OF assms(1), of _ "[DictObj []]"] st[of _ "[]"] st[of _ "[DictObj []]"]
    by (auto simp: parse_typer_dicts_step_def Let_def alloc_def
        split: if_splits sum.splits prod.splits)
qed

lemma loop_frame:
  "lookup h l = Some (ListObj xs) \<Longrightarrow> parse_typer_dicts_loop l is h = (h1, res) \<Longrightarrow>
   frame l h h1 \<and>
   (\<exists>ys. lookup h1 l = Some (ListObj ys) \<and> length ys = length xs \<and> (\<forall>j. j \<notin> set is \<longrightarrow> ys ! j = xs ! j))"
proof (induction "is" arbitrary: h xs)
  case Nil
  then show ?case by (auto simp: frame_refl)
next
  case (Cons i "is")
  obtain h' r' where st: "parse_typer_dicts_step l i h = (h', r')" by (cases "parse_typer_dicts_step l i h")
  from step_frame[OF Cons.prems(1) st] obtain ys' where
    f: "frame l h h'" and ys': "lookup h' l = Some (ListObj ys')" "\<forall>j. j \<noteq> i \<longrightarrow> ys' ! j = xs ! j"
    by blast
  have len: "length ys' = length xs" using f ys' Cons.prems(1) by (auto simp: frame_def)
  show ?case
  proof (cases r')
    case (Inl e)
    then show ?thesis using Cons.prems(2) st f ys' len by auto
  next
    case (Inr u)
    then have "parse_typer_dicts_loop l is h' = (h1, res)" using Cons.prems(2) st by simp
    from Cons.IH[OF ys'(1) this] show ?thesis using f ys' len by (auto intro: frame_trans)
  qed
qed

lemma frame_typer_dict_back:
  "frame l h h' \<Longrightarrow> optional_typer_dict h (PRef t) \<Longrightarrow>
   lookup h' t = Some (TyperDict v) \<Longrightarrow> lookup h t = Some (TyperDict v)"
  by (auto simp: optional_typer_dict_def frame_def lookup_def split: if_splits pyobj.splits option.splits)

lemma loop_normalizes:
  assumes "lookup h l = Some (ListObj xs)" "distinct is"
    and "\<forall>i\<in>set is. i < length xs \<and> optional_typer_dict h (xs ! i)"
    and "parse_typer_dicts_loop l is h = (h1, res)"
    and "lookup h1 l = Some (ListObj ys)"
  shows "case res of
           Inr u \<Rightarrow>
             (\<forall>i\<in>set is. isinstance_dict h1 (ys ! i) \<and>
                (xs ! i = PNone \<longrightarrow>
                   dict_items h1 (ys ! i) = Some [] \<and> (\<forall>a<length h. ys ! i \<noteq> PRef a)) \<and>
                (\<forall>t v. xs ! i = PRef t \<longrightarrow> lookup h t = Some (TyperDict v) \<longrightarrow>
                   ys ! i = v \<and> isinstance_dict h v))
         | Inl e \<Rightarrow>
             (\<exists>i\<in>set is. \<exists>t v. xs ! i = PRef t \<and> lookup h t = Some (TyperDict v) \<and>
                \<not> isinstance_dict h v \<and> e = ValueError (MustBeDictionary v))"
  using assms
proof (induction "is" arbitrary: h xs)
  case Nil
  then show ?case by auto
next
  case (Cons i "is")
  have i: "i < length xs" "optional_typer_dict h (xs ! i)" "i \<notin> set is" "distinct is"
    using Cons.prems(2,3) by auto
  have l: "l < length h" using Cons.prems(1) by (simp add: lookup_Some_iff)
  obtain h' r' where st: "parse_typer_dicts_step l i h = (h', r')"
    by (cases "parse_typer_dicts_step l i h")
  from step_frame[OF Cons.prems(1) st] obtain xs' where
    f: "frame l h h'" and xs': "lookup h' l = Some (ListObj xs')" "\<forall>j. j \<noteq> i \<longrightarrow> xs' ! j = xs ! j"
    by blast
  have len: "length xs' = length xs" using f xs' Cons.prems(1) by (auto simp: frame_def)
  have lenh: "length h \<le> length h'" using f by (simp add: frame_def)
  have same: "xs' ! j = xs ! j" if "j \<in> set is" for j
    using that i(3) xs'(2) by auto
  have wf': "\<forall>j\<in>set is. j < length xs' \<and> optional_typer_dict h' (xs' ! j)"
    using Cons.prems(3) same len frame_optional[OF f] by simp
  have tail_ok: "isinstance_dict h1 (ys ! j) \<and>
        (xs ! j = PNone \<longrightarrow>
           dict_items h1 (ys ! j) = Some [] \<and> (\<forall>a<length h. ys ! j \<noteq> PRef a)) \<and>
        (\<forall>t v. xs ! j = PRef t \<longrightarrow> lookup h t = Some (TyperDict v) \<longrightarrow>
           ys ! j = v \<and> isinstance_dict h v)"
    if rest: "parse_typer_dicts_loop l is h' = (h1, res)" and r: "res = Inr u"
      and j: "j \<in> set is" for u j
  proof -
    from Cons.IH[OF xs'(1) i(4) wf' rest Cons.prems(5)] j r
    have a: "isinstance_dict h1 (ys ! j)"
      and b: "xs' ! j = PNone \<longrightarrow>
                dict_items h1 (ys ! j) = Some [] \<and> (\<forall>a<length h'. ys ! j \<noteq> PRef a)"
      and c: "\<forall>t v. xs' ! j = PRef t \<longrightarrow> lookup h' t = Some (TyperDict v) \<longrightarrow>
                ys ! j = v \<and> isinstance_dict h' v"
      by simp_all
    have b': "xs ! j = PNone \<longrightarrow>
                dict_items h1 (ys ! j) = Some [] \<and> (\<forall>a<length h. ys ! j \<noteq> PRef a)"
      using b same[OF j] lenh by auto
    have c': "ys ! j = v \<and> isinstance_dict h v"
      if "xs ! j = PRef t" "lookup h t = Some (TyperDict v)" for t v
    proof -
      have "optional_typer_dict h (PRef t)" using Cons.prems(3) j that(1) by auto
      then have "in_store h v" using that(2) by (rule optional_typer_dict_in_store)
      moreover have "ys ! j = v \<and> isinstance_dict h' v"
        using c same[OF j] that frame_typer_dict[OF f that(2)] by simp
      ultimately show ?thesis using frame_isinstance_dict_back[OF f] by blast
    qed
    show ?thesis using a b' c' by blast
  qed
  have tail_bad: "\<exists>j\<in>set is. \<exists>t v. xs ! j = PRef t \<and> lookup h t = Some (TyperDict v) \<and>
        \<not> isinstance_dict h v \<and> e = ValueError (MustBeDictionary v)"
    if rest: "parse_typer_dicts_loop l is h' = (h1, res)" and r: "res = Inl e" for e
  proof -
    from Cons.IH[OF xs'(1) i(4) wf' rest Cons.prems(5)] r
    obtain j t v where j: "j \<in> set is" "xs' ! j = PRef t" "lookup h' t = Some (TyperDict v)"
      "\<not> isinstance_dict h' v" "e = ValueError (MustBeDictionary v)" by auto
    have xj: "xs ! j = PRef t" using j(2) same[OF j(1)] by simp
    have "optional_typer_dict h (PRef t)" using Cons.prems(3) j(1) xj by auto
    from frame_typer_dict_back[OF f this j(3)] j(4) frame_isinstance_dict[OF f, of v]
    have "lookup h t = Some (TyperDict v) \<and> \<not> isinstance_dict h v" by blast
    then show ?thesis using j(1,5) xj by blast
  qed
  from i(2) consider (absent) "xs ! i = PNone"
    | (present) t v where "xs ! i = PRef t" "lookup h t = Some (TyperDict v)"
    by (auto simp: optional_typer_dict_def split: pyval.splits option.splits pyobj.splits)
  then show ?case
  proof cases
    case absent
    from step_absent[OF Cons.prems(1) i(1) absent] st
    have h': "h' = store l (ListObj (xs[i := PRef (length h)])) (h @ [DictObj []])"
      and r': "r' = Inr ()"
      by simp_all
    have rest: "parse_typer_dicts_loop l is h' = (h1, res)" using Cons.prems(4) st r' by simp
    from loop_frame[OF xs'(1) rest] Cons.prems(5)
    have f1: "frame l h' h1" and keep: "\<forall>j. j \<notin> set is \<longrightarrow> ys ! j = xs' ! j" by auto
    have xi: "xs' ! i = PRef (length h)"
      using xs'(1) h' l i(1) by (auto simp: lookup_store)
    have "lookup h' (length h) = Some (DictObj [])"
      using h' l by (simp add: lookup_store lookup_append_new)
    then have new: "lookup h1 (length h) = Some (DictObj [])"
      using frame_lookup[OF f1, of "length h"] l by (simp add: lookup_Some_iff)
    have yi: "ys ! i = PRef (length h)" using keep i(3) xi by simp
    show ?thesis
    proof (cases res)
      case (Inr u)
      have "isinstance_dict h1 (ys ! i)" "dict_items h1 (ys ! i) = Some []"
        "\<forall>a<length h. ys ! i \<noteq> PRef a"
        using yi new by (simp_all add: dict_items_def)
      then show ?thesis using Inr absent tail_ok[OF rest Inr] by simp
    next
      case (Inl e)
      then show ?thesis using tail_bad[OF rest Inl] by auto
    qed
  next
    case present
    from step_present[OF Cons.prems(1) i(1) present] st
    have h': "h' = store l (ListObj (xs[i := v])) h"
      and r': "r' = (if isinstance_dict h v then Inr () else Inl (ValueError (MustBeDictionary v)))"
      by simp_all
    show ?thesis
    proof (cases "isinstance_dict h v")
      case False
      then have "res = Inl (ValueError (MustBeDictionary v))" using Cons.prems(4) st r' by simp
      then show ?thesis using present False by auto
    next
      case True
      have rest: "parse_typer_dicts_loop l is h' = (h1, res)"
        using Cons.prems(4) st r' True by simp
      from loop_frame[OF xs'(1) rest] Cons.prems(5)
      have f1: "frame l h' h1" and keep: "\<forall>j. j \<notin> set is \<longrightarrow> ys ! j = xs' ! j" by auto
      have xi: "xs' ! i = v" using xs'(1) h' l i(1) by (auto simp: lookup_store)
      have yi: "ys ! i = v" using keep i(3) xi by simp
      have dict1: "isinstance_dict h1 v"
        using True frame_isinstance_dict[OF f] frame_isinstance_dict[OF f1] by blast
      show ?thesis
      proof (cases res)
        case (Inr u)
        show ?thesis using Inr yi dict1 True present tail_ok[OF rest Inr] by simp
      next
        case (Inl e)
        then show ?thesis using tail_bad[OF rest Inl] by auto
      qed
    qed
  qed
qed

lemma parse_typer_dicts_frame:
  assumes "lookup h l = Some (ListObj xs)" "parse_typer_dicts (PRef l) h = (h1, res)"
  shows "frame l h h1"
  using assms loop_frame[OF assms(1), of "[0..<length xs]"]
  by (auto simp: parse_typer_dicts_def split: prod.splits sum.splits)

lemma parse_typer_dicts_cases:
  assumes "lookup h l = Some (ListObj xs)" "list_all (optional_typer_dict h) xs"
  obtains (rejected) h1 t v where
      "parse_typer_dicts (PRef l) h = (h1, Inl (ValueError (MustBeDictionary v)))"
      "PRef t \<in> set xs" "lookup h t = Some (TyperDict v)" "\<not> isinstance_dict h v"
      "frame l h h1"
  | (normalized) h1 ys where
      "parse_typer_dicts (PRef l) h = (h1, Inr (PRef l))"
      "frame l h h1" "lookup h1 l = Some (ListObj ys)" "length ys = length xs"
      "\<forall>i<length xs. isinstance_dict h1 (ys ! i) \<and>
          (xs ! i = PNone \<longrightarrow>
             dict_items h1 (ys ! i) = Some [] \<and> (\<forall>a<length h. ys ! i \<noteq> PRef a)) \<and>
          (\<forall>t v. xs ! i = PRef t \<longrightarrow> lookup h t = Some (TyperDict v) \<longrightarrow>
             ys ! i = v \<and> isinstance_dict h v)"
proof -
  obtain h1 res where lp: "parse_typer_dicts_loop l [0..<length xs] h = (h1, res)"
    by (cases "parse_typer_dicts_loop l [0..<length xs] h")
  from loop_frame[OF assms(1) lp] obtain ys where
    f: "frame l h h1" and ys: "lookup h1 l = Some (ListObj ys)" "length ys = length xs"
    by blast
  have wf: "\<forall>i\<in>set [0..<length xs]. i < length xs \<and> optional_typer_dict h (xs ! i)"
    using assms(2) by (simp add: list_all_length)
  note n = loop_normalizes[OF assms(1) _ wf lp ys(1)]
  show thesis
  proof (cases res)
    case (Inl e)
    with n obtain i t v where "i < length xs" "xs ! i = PRef t" "lookup h t = Some (TyperDict v)"
      "\<not> isinstance_dict h v" "e = ValueError (MustBeDictionary v)" by auto
    moreover have "parse_typer_dicts (PRef l) h = (h1, Inl e)"
      using assms(1) lp Inl by (simp add: parse_typer_dicts_def)
    ultimately show ?thesis using rejected[of h1 v t] f by (metis nth_mem)
  next
    case (Inr u)
    have "parse_typer_dicts (PRef l) h = (h1, Inr (PRef l))"
      using assms(1) lp Inr by (simp add: parse_typer_dicts_def)
    then show ?thesis using normalized[OF _ f ys] n Inr by simp
  qed
qed

lemma frame_take: "frame (length h) (h @ [ob]) h1 \<Longrightarrow> take (length h) h1 = h"
  by (rule nth_equalityI) (auto simp: frame_def nth_append)

lemma take_lookup:
  "take (length h) h1 = h \<Longrightarrow> a < length h \<Longrightarrow> lookup (h1 @ obs) a = lookup h a"
  by (metis length_take lookup_append_old lookup_def min_less_iff_conj nth_take)

lemma parse_fresh_list_frame:
  assumes "parse_typer_dicts (PRef (length h)) (h @ [ListObj xs]) = (h1, res)"
  shows "take (length h) h1 = h"
  using parse_typer_dicts_frame[OF lookup_append_new assms] by (rule frame_take)

lemma optional_typer_dict_append:
  "optional_typer_dict h x \<Longrightarrow> optional_typer_dict (h @ obs) x"
  by (cases x)
    (auto simp: optional_typer_dict_def in_store_def lookup_def nth_append
      split: if_splits pyobj.splits option.splits pyval.splits)

lemma isinstance_dict_take:
  "take (length h) h1 = h \<Longrightarrow> isinstance_dict h v \<Longrightarrow> isinstance_dict (h1 @ obs) v"
proof (cases v)
  case (PRef a)
  assume tk: "take (length h) h1 = h" and d: "isinstance_dict h v"
  from d PRef have "a < length h" by (auto simp: lookup_def split: if_splits)
  from take_lookup[OF tk this, of obs] d PRef show ?thesis by simp
qed simp_all

lemma parse_fresh_list_cases:
  assumes "list_all (optional_typer_dict h) xs"
  obtains (rejected) h1 t v where
      "parse_typer_dicts (PRef (length h)) (h @ [ListObj xs]) =
         (h1, Inl (ValueError (MustBeDictionary v)))"
      "take (length h) h1 = h"
      "PRef t \<in> set xs" "lookup h t = Some (TyperDict v)" "\<not> isinstance_dict h v"
  | (normalized) h1 ys where
      "parse_typer_dicts (PRef (length h)) (h @ [ListObj xs]) = (h1, Inr (PRef (length h)))"
      "take (length h) h1 = h" "list_items h1 (PRef (length h)) = Some ys"
      "length ys = length xs"
      "\<forall>i<length xs. isinstance_dict h1 (ys ! i) \<and>
          (xs ! i = PNone \<longrightarrow>
             dict_items h1 (ys ! i) = Some [] \<and> (\<forall>a<length h. ys ! i \<noteq> PRef a)) \<and>
          (\<forall>t v. xs ! i = PRef t \<longrightarrow> lookup h t = Some (TyperDict v) \<longrightarrow>
             ys ! i = v \<and> isinstance_dict h v)"
proof -
  let ?h0 = "h @ [ListObj xs]"
  have a: "lookup ?h0 (length h) = Some (ListObj xs)" by (rule lookup_append_new)
  have b: "list_all (optional_typer_dict ?h0) xs"
    using assms by (simp add: list_all_length optional_typer_dict_append)
  from a b show thesis
  proof (cases rule: parse_typer_dicts_cases)
    case (rejected h1 t v)
    have tk: "take (length h) h1 = h" using rejected(5) by (rule frame_take)
    have "optional_typer_dict h (PRef t)"
      using assms rejected(2) by (simp add: list_all_iff)
    then obtain v' where v': "lookup h t = Some (TyperDict v')"
      by (auto simp: optional_typer_dict_def split: option.splits pyobj.splits)
    then have "t < length h" by (simp add: lookup_Some_iff)
    then have "lookup ?h0 t = lookup h t" by (rule lookup_append_old)
    then have "v' = v" using v' rejected(3) by simp
    moreover have "\<not> isinstance_dict h v"
      using rejected(4) isinstance_dict_take[of h h v "[ListObj xs]"] by auto
    ultimately show ?thesis using that(1)[OF rejected(1) tk rejected(2)] v' by blast
  next
    case (normalized h1 ys)
    have tk: "take (length h) h1 = h" using normalized(2) by (rule frame_take)
    have "isinstance_dict h1 (ys ! i) \<and>
          (xs ! i = PNone \<longrightarrow>
             dict_items h1 (ys ! i) = Some [] \<and> (\<forall>a<length h. ys ! i \<noteq> PRef a)) \<and>
          (\<forall>t v. xs ! i = PRef t \<longrightarrow> lookup h t = Some (TyperDict v) \<longrightarrow>
             ys ! i = v \<and> isinstance_dict h v)" if i: "i < length xs" for i
    proof -
      from normalized(5) i have
        n1: "isinstance_dict h1 (ys ! i)" and
        n2: "xs ! i = PNone \<longrightarrow>
             dict_items h1 (ys ! i) = Some [] \<and> (\<forall>a<length ?h0. ys ! i \<noteq> PRef a)" and
        n3: "\<forall>t v. xs ! i = PRef t \<longrightarrow> lookup ?h0 t = Some (TyperDict v) \<longrightarrow>
             ys ! i = v \<and> isinstance_dict ?h0 v"
        by simp_all
      have c: "ys ! i = v \<and> isinstance_dict h v"
        if "xs ! i = PRef t" "lookup h t = Some (TyperDict v)" for t v
      proof -
        have t: "t < length h" using that(2) by (simp add: lookup_Some_iff)
        then have "lookup ?h0 t = Some (TyperDict v)" using that(2) by (simp add: lookup_append_old)
        with n3 that(1) have yv: "ys ! i = v" "isinstance_dict ?h0 v" by simp_all
        have "optional_typer_dict h (PRef t)"
          using assms i that(1) by (simp add: list_all_length) metis
        then have "in_store h v" using that(2) by (rule optional_typer_dict_in_store)
        then have "isinstance_dict h v" using yv(2)
          by (cases v) (auto simp: in_store_def lookup_def nth_append split: if_splits)
        then show ?thesis using yv(1) by simp
      qed
      show ?thesis using n1 n2 c by auto
    qed
    moreover have "list_items h1 (PRef (length h)) = Some ys"
      using normalized(3) by (simp add: list_items_def)
    ultimately show ?thesis using that(2)[OF normalized(1) tk _ normalized(4)] by blast
  qed
qed

lemma take_append_keep:
  assumes "take (length h) h1 = h"
  shows "take (length h) (h1 @ obs) = h"
proof -
  have "length (take (length h) h1) = length h" by (simp only: assms)
  then have "length h \<le> length h1" by simp
  then show ?thesis using assms by simp
qed

lemma contains_error: "contains h k d = Inl e \<Longrightarrow> e = TypeError"
  by (simp add: contains_def split: option.splits)

lemma setitem_error: "setitem d k v h = Inl e \<Longrightarrow> e = TypeError"
  by (simp add: setitem_def split: pyval.splits option.splits pyobj.splits)

lemma unpack_error: "unpack n h v = Inl e \<Longrightarrow> e = TypeError \<or> e = ValueError UnpackMismatch"
  by (simp add: unpack_def split: option.splits if_splits)

lemma dict_items_Some_iff:
  "dict_items h v = Some kvs \<longleftrightarrow> (\<exists>a. v = PRef a \<and> a < length h \<and> h ! a = DictObj kvs)"
  by (auto simp: dict_items_def lookup_def split: pyval.splits option.splits pyobj.splits if_splits)

lemma dict_items_append: "dict_items h v = Some kvs \<Longrightarrow> dict_items (h @ obs) v = Some kvs"
  by (auto simp: dict_items_Some_iff nth_append)

lemma contains_dict:
  "dict_items h d = Some kvs \<Longrightarrow> contains h k d = Inr (k \<in> set (map fst kvs))"
  by (simp add: contains_def)

lemma setitem_dict:
  "dict_items h (PRef a) = Some kvs \<Longrightarrow>
   setitem (PRef a) k v h = Inr (h[a := DictObj (dict_update k v kvs)])"
  by (auto simp: dict_items_Some_iff setitem_def lookup_def store_def)

lemma dict_update_new: "k \<notin> set (map fst kvs) \<Longrightarrow> dict_update k v kvs = kvs @ [(k, v)]"
  by (induction kvs) auto

lemma isinstance_dict_items: "isinstance_dict h v \<Longrightarrow> \<exists>kvs. dict_items h v = Some kvs"
  by (cases v) (auto simp: dict_items_def split: option.splits pyobj.splits)

lemma dict_items_take:
  "take (length h) h1 = h \<Longrightarrow> dict_items h v = Some kvs \<Longrightarrow> dict_items (h1 @ obs) v = Some kvs"
proof -
  assume tk: "take (length h) h1 = h" and d: "dict_items h v = Some kvs"
  from d obtain a where a: "v = PRef a" "a < length h" "lookup h a = Some (DictObj kvs)"
    by (auto simp: dict_items_Some_iff lookup_def)
  from take_lookup[OF tk a(2), of obs] a(1,3) show ?thesis by (simp add: dict_items_def)
qed

lemma dict_items_update_other:
  "a < length h \<Longrightarrow> dict_items (h[a := DictObj kvs] @ obs) (PRef a) = Some kvs"
  by (simp add: dict_items_def lookup_def nth_append)

lemma isinstance_dict_append_new:
  "\<not> isinstance_dict h v \<Longrightarrow> \<not> isinstance_dict (h @ [ListObj xs]) v"
  by (cases v) (auto simp: lookup_def nth_append split: if_splits option.splits pyobj.splits)

section \<open>The keyword-dictionary normalizer\<close>

text \<open>
  C4. For a list of \<open>N\<close> optional dictionary inputs, \<^verbatim>\<open>parse_typer_dicts\<close> either
  raises the \<^verbatim>\<open>ValueError\<close> whose message carries the offending value, the value
  wrapped by an input that is present and is no dictionary, or it returns a list of
  length \<open>N\<close> whose element at each index is a dictionary: the wrapped one where the
  input was present, an empty one where it was absent. No element of the result is
  \<^verbatim>\<open>None\<close> or a value other than a dictionary.
\<close>

theorem parse_typer_dicts_rejects_or_normalizes:
  assumes "lookup h l = Some (ListObj xs)" and "list_all (optional_typer_dict h) xs"
  shows "(\<exists>h1 t v. parse_typer_dicts (PRef l) h = (h1, Inl (ValueError (MustBeDictionary v))) \<and>
            PRef t \<in> set xs \<and> lookup h t = Some (TyperDict v) \<and> \<not> isinstance_dict h v)
       \<or> (\<exists>h1 r ys. parse_typer_dicts (PRef l) h = (h1, Inr r) \<and>
            list_items h1 r = Some ys \<and> length ys = length xs \<and>
            (\<forall>i<length xs. isinstance_dict h1 (ys ! i) \<and>
               (case xs ! i of
                  PNone \<Rightarrow> dict_items h1 (ys ! i) = Some []
                | PRef t \<Rightarrow> lookup h t = Some (TyperDict (ys ! i)) \<and> isinstance_dict h (ys ! i)
                | _ \<Rightarrow> False)))"
  using assms
proof (cases rule: parse_typer_dicts_cases)
  case (rejected h1 t v)
  then show ?thesis by blast
next
  case (normalized h1 ys)
  have "isinstance_dict h1 (ys ! i) \<and>
          (case xs ! i of
             PNone \<Rightarrow> dict_items h1 (ys ! i) = Some []
           | PRef t \<Rightarrow> lookup h t = Some (TyperDict (ys ! i)) \<and> isinstance_dict h (ys ! i)
           | _ \<Rightarrow> False)" if i: "i < length xs" for i
  proof -
    have "optional_typer_dict h (xs ! i)" using assms(2) i by (simp add: list_all_length)
    then show ?thesis using normalized(5) i
      by (auto simp: optional_typer_dict_def split: pyval.splits option.splits pyobj.splits)
  qed
  moreover have "list_items h1 (PRef l) = Some ys"
    using normalized(3) by (simp add: list_items_def)
  ultimately show ?thesis using normalized(1,4) by blast
qed

text \<open>
  The theorem at two stores. In the first the list is \<^verbatim>\<open>[None, TyperDict({'model':
  'small'}), None]\<close> and the call returns three dictionaries; in the second it is
  \<^verbatim>\<open>[None, TyperDict(5)]\<close> and the call raises for the value \<^verbatim>\<open>5\<close>.
\<close>

theorem parse_typer_dicts_rejects_or_normalizes_witness:
  "lookup [TyperDict (PRef 1), DictObj [(PStr ''model'', PStr ''small'')],
           ListObj [PNone, PRef 0, PNone]] 2 = Some (ListObj [PNone, PRef 0, PNone]) \<and>
   list_all (optional_typer_dict
       [TyperDict (PRef 1), DictObj [(PStr ''model'', PStr ''small'')],
        ListObj [PNone, PRef 0, PNone]]) [PNone, PRef 0, PNone] \<and>
   (\<exists>h1 r ys. parse_typer_dicts (PRef 2)
         [TyperDict (PRef 1), DictObj [(PStr ''model'', PStr ''small'')],
          ListObj [PNone, PRef 0, PNone]] = (h1, Inr r) \<and>
       list_items h1 r = Some ys \<and> length ys = 3 \<and>
       dict_items h1 (ys ! 0) = Some [] \<and> ys ! 1 = PRef 1 \<and> isinstance_dict h1 (ys ! 1) \<and>
       dict_items h1 (ys ! 2) = Some []) \<and>
   lookup [TyperDict (PInt 5), ListObj [PNone, PRef 0]] 1 = Some (ListObj [PNone, PRef 0]) \<and>
   list_all (optional_typer_dict [TyperDict (PInt 5), ListObj [PNone, PRef 0]]) [PNone, PRef 0] \<and>
   (\<exists>h1. parse_typer_dicts (PRef 1) [TyperDict (PInt 5), ListObj [PNone, PRef 0]] =
       (h1, Inl (ValueError (MustBeDictionary (PInt 5)))))"
proof -
  let ?h = "[TyperDict (PRef 1), DictObj [(PStr ''model'', PStr ''small'')],
             ListObj [PNone, PRef 0, PNone]]"
  let ?xs = "[PNone, PRef 0, PNone]"
  let ?g = "[TyperDict (PInt 5), ListObj [PNone, PRef 0]]"
  let ?zs = "[PNone, PRef 0]"
  have a: "lookup ?h 2 = Some (ListObj ?xs)" by code_simp
  have b: "list_all (optional_typer_dict ?h) ?xs" by code_simp
  have c: "lookup ?g 1 = Some (ListObj ?zs)" by code_simp
  have d: "list_all (optional_typer_dict ?g) ?zs" by code_simp
  have ok: "snd (parse_typer_dicts (PRef 2) ?h) = Inr (PRef 2)" by code_simp
  have bad: "snd (parse_typer_dicts (PRef 1) ?g) = Inl (ValueError (MustBeDictionary (PInt 5)))"
    by code_simp
  from parse_typer_dicts_rejects_or_normalizes[OF a b] ok
  obtain h1 r ys where n: "parse_typer_dicts (PRef 2) ?h = (h1, Inr r)"
    "list_items h1 r = Some ys" "length ys = 3"
    "\<forall>i<3. isinstance_dict h1 (ys ! i) \<and>
       (case ?xs ! i of
          PNone \<Rightarrow> dict_items h1 (ys ! i) = Some []
        | PRef t \<Rightarrow> lookup ?h t = Some (TyperDict (ys ! i)) \<and> isinstance_dict ?h (ys ! i)
        | _ \<Rightarrow> False)"
    by auto
  have "dict_items h1 (ys ! 0) = Some []" using n(4)[rule_format, of 0] by simp
  moreover have e1: "isinstance_dict h1 (ys ! 1)" "lookup ?h 0 = Some (TyperDict (ys ! 1))"
    using n(4)[rule_format, of 1] by simp_all
  moreover have "dict_items h1 (ys ! 2) = Some []" using n(4)[rule_format, of 2] by simp
  moreover from e1(2) have "ys ! 1 = PRef 1" by (simp add: lookup_def)
  ultimately have first: "\<exists>h1 r ys. parse_typer_dicts (PRef 2) ?h = (h1, Inr r) \<and>
       list_items h1 r = Some ys \<and> length ys = 3 \<and>
       dict_items h1 (ys ! 0) = Some [] \<and> ys ! 1 = PRef 1 \<and> isinstance_dict h1 (ys ! 1) \<and>
       dict_items h1 (ys ! 2) = Some []"
    using n(1,2,3) by blast
  from parse_typer_dicts_rejects_or_normalizes[OF c d] bad
  have second: "\<exists>h1. parse_typer_dicts (PRef 1) ?g =
       (h1, Inl (ValueError (MustBeDictionary (PInt 5))))"
    by auto
  show ?thesis using a b c d first second by blast
qed

text \<open>
  C10. \<^verbatim>\<open>parse_typer_dicts\<close> works on the list it is given and returns that very list:
  the value returned is the reference passed in, and after a call that returns, the list
  at that address holds at each index the normalized dictionary (the wrapped value in
  place of the wrapper, an empty dictionary in place of \<^verbatim>\<open>None\<close>). Whoever holds
  the list sees the normalization; every other object of the caller's store is as it was.
\<close>

theorem parse_typer_dicts_in_place:
  assumes "lookup h l = Some (ListObj xs)" and "list_all (optional_typer_dict h) xs"
    and "parse_typer_dicts (PRef l) h = (h1, Inr r)"
  shows "r = PRef l \<and> frame l h h1 \<and>
         (\<exists>ys. lookup h1 l = Some (ListObj ys) \<and> length ys = length xs \<and>
            (\<forall>i<length xs. isinstance_dict h1 (ys ! i) \<and>
               (case xs ! i of
                  PNone \<Rightarrow> dict_items h1 (ys ! i) = Some []
                | PRef t \<Rightarrow> lookup h t = Some (TyperDict (ys ! i))
                | _ \<Rightarrow> False)))"
  using assms(1,2)
proof (cases rule: parse_typer_dicts_cases)
  case (rejected h1 t v)
  then show ?thesis using assms(3) by simp
next
  case (normalized h1' ys)
  have eq: "h1' = h1" "r = PRef l" using normalized(1) assms(3) by simp_all
  have "isinstance_dict h1 (ys ! i) \<and>
          (case xs ! i of
             PNone \<Rightarrow> dict_items h1 (ys ! i) = Some []
           | PRef t \<Rightarrow> lookup h t = Some (TyperDict (ys ! i))
           | _ \<Rightarrow> False)" if i: "i < length xs" for i
  proof -
    have "optional_typer_dict h (xs ! i)" using assms(2) i by (simp add: list_all_length)
    then show ?thesis using normalized(5) i eq
      by (auto simp: optional_typer_dict_def split: pyval.splits option.splits pyobj.splits)
  qed
  then show ?thesis using normalized(2,3,4) eq by blast
qed

text \<open>
  The theorem at the list \<^verbatim>\<open>[None, TyperDict({'model': 'small'})]\<close>, stored at address
  2: the call returns the reference to address 2, and the list there now holds a new empty
  dictionary and the wrapped dictionary.
\<close>

theorem parse_typer_dicts_in_place_witness:
  "lookup [TyperDict (PRef 1), DictObj [(PStr ''model'', PStr ''small'')],
           ListObj [PNone, PRef 0]] 2 = Some (ListObj [PNone, PRef 0]) \<and>
   list_all (optional_typer_dict
       [TyperDict (PRef 1), DictObj [(PStr ''model'', PStr ''small'')],
        ListObj [PNone, PRef 0]]) [PNone, PRef 0] \<and>
   parse_typer_dicts (PRef 2)
       [TyperDict (PRef 1), DictObj [(PStr ''model'', PStr ''small'')],
        ListObj [PNone, PRef 0]] =
     ([TyperDict (PRef 1), DictObj [(PStr ''model'', PStr ''small'')],
       ListObj [PRef 3, PRef 1], DictObj []], Inr (PRef 2)) \<and>
   PRef 2 = PRef (2::nat) \<and>
   frame 2 [TyperDict (PRef 1), DictObj [(PStr ''model'', PStr ''small'')],
            ListObj [PNone, PRef 0]]
     [TyperDict (PRef 1), DictObj [(PStr ''model'', PStr ''small'')],
      ListObj [PRef 3, PRef 1], DictObj []]"
proof -
  let ?h = "[TyperDict (PRef 1), DictObj [(PStr ''model'', PStr ''small'')],
             ListObj [PNone, PRef 0]]"
  let ?h1 = "[TyperDict (PRef 1), DictObj [(PStr ''model'', PStr ''small'')],
              ListObj [PRef 3, PRef 1], DictObj []]"
  have a: "lookup ?h 2 = Some (ListObj [PNone, PRef 0])" by code_simp
  have b: "list_all (optional_typer_dict ?h) [PNone, PRef 0]" by code_simp
  have c: "parse_typer_dicts (PRef 2) ?h = (?h1, Inr (PRef 2))" by code_simp
  from parse_typer_dicts_in_place[OF a b c] have "PRef 2 = PRef (2::nat) \<and> frame 2 ?h ?h1"
    by blast
  then show ?thesis using a b c by blast
qed

section \<open>The option parser\<close>

text \<open>
  C9. \<^verbatim>\<open>parse_dict_class\<close> makes no check of the type of what it decodes. It never
  raises the \<^verbatim>\<open>ValueError\<close>s of this module; whenever the decoder returns a value, of
  whatever kind, it returns a new \<^verbatim>\<open>TyperDict\<close> wrapping that value; and when that
  value is no dictionary, it is \<^verbatim>\<open>parse_typer_dicts\<close>, called later on the list
  holding the wrapper, that raises the \<^verbatim>\<open>ValueError\<close> for it.
\<close>

theorem parse_dict_class_defers_type_check:
  "(\<forall>m. snd (parse_dict_class literal_eval val h) \<noteq> Inl (ValueError m)) \<and>
   (\<forall>v h1. literal_eval val h = Inr (v, h1) \<longrightarrow>
      (\<exists>t h2. parse_dict_class literal_eval val h = (h2, Inr (PRef t)) \<and>
         lookup h2 t = Some (TyperDict v) \<and>
         (\<not> isinstance_dict h2 v \<longrightarrow>
            (\<exists>h3. (case alloc (ListObj [PRef t]) h2 of (l, h0) \<Rightarrow> parse_typer_dicts (PRef l) h0)
                 = (h3, Inl (ValueError (MustBeDictionary v)))))))"
proof -
  have a: "snd (parse_dict_class literal_eval val h) \<noteq> Inl (ValueError m)" for m
    by (simp add: parse_dict_class_def alloc_def split: sum.splits prod.splits)
  have b: "\<exists>t h2. parse_dict_class literal_eval val h = (h2, Inr (PRef t)) \<and>
         lookup h2 t = Some (TyperDict v) \<and>
         (\<not> isinstance_dict h2 v \<longrightarrow>
            (\<exists>h3. (case alloc (ListObj [PRef t]) h2 of (l, h0) \<Rightarrow> parse_typer_dicts (PRef l) h0)
                 = (h3, Inl (ValueError (MustBeDictionary v)))))"
    if d: "literal_eval val h = Inr (v, h1)" for v h1
  proof -
    let ?t = "length h1"
    let ?h2 = "h1 @ [TyperDict v]"
    let ?h0 = "?h2 @ [ListObj [PRef ?t]]"
    have p: "parse_dict_class literal_eval val h = (?h2, Inr (PRef ?t))"
      using d by (simp add: parse_dict_class_def alloc_def)
    have t: "lookup ?h2 ?t = Some (TyperDict v)" by (rule lookup_append_new)
    have "\<exists>h3. parse_typer_dicts (PRef (length ?h2)) ?h0
                = (h3, Inl (ValueError (MustBeDictionary v)))"
      if nd: "\<not> isinstance_dict ?h2 v"
    proof -
      have l: "lookup ?h0 (length ?h2) = Some (ListObj [PRef ?t])" by (rule lookup_append_new)
      have t0: "lookup ?h0 ?t = Some (TyperDict v)" by (simp add: lookup_def nth_append)
      have nd0: "\<not> isinstance_dict ?h0 v" using nd by (rule isinstance_dict_append_new)
      from step_present[OF l _ _ t0, of 0] nd0
      have "parse_typer_dicts_step (length ?h2) 0 ?h0 =
              (store (length ?h2) (ListObj ([PRef ?t][0 := v])) ?h0,
               Inl (ValueError (MustBeDictionary v)))"
        by simp
      then show ?thesis using l by (simp add: parse_typer_dicts_def)
    qed
    then show ?thesis using p t by (simp add: alloc_def)
  qed
  show ?thesis using a b by blast
qed

text \<open>
  The theorem at the text \<^verbatim>\<open>"5"\<close>: it decodes to the integer 5, the parser wraps it
  without complaint, and the normalizer rejects it.
\<close>

theorem parse_dict_class_defers_type_check_witness:
  "literal_eval_sample ''5'' [] = Inr (PInt 5, []) \<and>
   (\<exists>t h2. parse_dict_class literal_eval_sample ''5'' [] = (h2, Inr (PRef t)) \<and>
      lookup h2 t = Some (TyperDict (PInt 5)) \<and>
      (\<exists>h3. (case alloc (ListObj [PRef t]) h2 of (l, h0) \<Rightarrow> parse_typer_dicts (PRef l) h0)
           = (h3, Inl (ValueError (MustBeDictionary (PInt 5))))))"
proof -
  have d: "literal_eval_sample ''5'' [] = Inr (PInt 5, [])" by code_simp
  from parse_dict_class_defers_type_check[of literal_eval_sample "''5''" "[]"] d
  obtain t h2 where p: "parse_dict_class literal_eval_sample ''5'' [] = (h2, Inr (PRef t))"
    "lookup h2 t = Some (TyperDict (PInt 5))"
    "\<not> isinstance_dict h2 (PInt 5) \<longrightarrow>
       (\<exists>h3. (case alloc (ListObj [PRef t]) h2 of (l, h0) \<Rightarrow> parse_typer_dicts (PRef l) h0)
            = (h3, Inl (ValueError (MustBeDictionary (PInt 5)))))"
    by blast
  from p(3) have "\<exists>h3. (case alloc (ListObj [PRef t]) h2 of (l, h0) \<Rightarrow> parse_typer_dicts (PRef l) h0)
            = (h3, Inl (ValueError (MustBeDictionary (PInt 5))))"
    by simp
  then show ?thesis using d p(1,2) by blast
qed

text \<open>
  C5. Parsing the text \<^verbatim>\<open>"{}"\<close> and normalizing the result gives what normalizing an
  absent input gives: one empty dictionary. The decoder is taken to do on \<^verbatim>\<open>"{}"\<close>
  what \<^verbatim>\<open>ast.literal_eval\<close> does, that is, to return an empty dictionary.
\<close>

theorem empty_literal_same_as_no_flag:
  assumes "literal_eval ''{}'' h = Inr (v, h1)" and "dict_items h1 v = Some []"
  shows "normalized_kwargs
           (case parse_dict_class literal_eval ''{}'' h of
              (h2, Inl e) \<Rightarrow> (h2, Inl e)
            | (h2, Inr typer_dict) \<Rightarrow>
                (case alloc (ListObj [typer_dict]) h2 of
                   (l, h3) \<Rightarrow> parse_typer_dicts (PRef l) h3))
           = Inr (Some [Some []]) \<and>
         normalized_kwargs
           (case alloc (ListObj [PNone]) h of (l, h3) \<Rightarrow> parse_typer_dicts (PRef l) h3)
           = Inr (Some [Some []])"
proof -
  let ?t = "length h1"
  let ?h2 = "h1 @ [TyperDict v]"
  have p: "parse_dict_class literal_eval ''{}'' h = (?h2, Inr (PRef ?t))"
    using assms(1) by (simp add: parse_dict_class_def alloc_def)
  have t: "lookup ?h2 ?t = Some (TyperDict v)" by (rule lookup_append_new)
  have dv: "isinstance_dict ?h2 v" "in_store ?h2 v"
    using assms(2) by (auto simp: dict_items_Some_iff in_store_def lookup_def nth_append)
  have wf: "list_all (optional_typer_dict ?h2) [PRef ?t]"
    using t dv(2) by (simp add: optional_typer_dict_def)
  have first: "normalized_kwargs (parse_typer_dicts (PRef (length ?h2)) (?h2 @ [ListObj [PRef ?t]]))
                 = Inr (Some [Some []])"
    using wf
  proof (cases rule: parse_fresh_list_cases)
    case (rejected h' t' v')
    then show ?thesis using t dv(1) by simp
  next
    case (normalized h' ys)
    have y: "ys ! 0 = v" using normalized(5)[rule_format, of 0] t by simp
    have "length ys = 1" using normalized(4) by simp
    then have ys: "ys = [v]" using y by (cases ys) auto
    have "dict_items ?h2 v = Some []" using assms(2) by (rule dict_items_append)
    from dict_items_take[OF normalized(2) this, of "[]"] have "dict_items h' v = Some []" by simp
    then show ?thesis using normalized(1,3) ys by (simp add: normalized_kwargs_def)
  qed
  have wf0: "list_all (optional_typer_dict h) [PNone]" by (simp add: optional_typer_dict_def)
  have second: "normalized_kwargs (parse_typer_dicts (PRef (length h)) (h @ [ListObj [PNone]]))
                  = Inr (Some [Some []])"
    using wf0
  proof (cases rule: parse_fresh_list_cases)
    case (rejected h' t' v')
    then show ?thesis by simp
  next
    case (normalized h' ys)
    have y: "dict_items h' (ys ! 0) = Some []" using normalized(5)[rule_format, of 0] by simp
    have "length ys = 1" using normalized(4) by simp
    then obtain y0 where ys: "ys = [y0]" by (cases ys) auto
    show ?thesis using normalized(1,3) y ys by (simp add: normalized_kwargs_def)
  qed
  show ?thesis using p first second by (simp add: alloc_def)
qed

theorem empty_literal_same_as_no_flag_witness:
  "literal_eval_sample ''{}'' [] = Inr (PRef 0, [DictObj []]) \<and>
   dict_items [DictObj []] (PRef 0) = Some [] \<and>
   normalized_kwargs
     (case parse_dict_class literal_eval_sample ''{}'' [] of
        (h2, Inl e) \<Rightarrow> (h2, Inl e)
      | (h2, Inr typer_dict) \<Rightarrow>
          (case alloc (ListObj [typer_dict]) h2 of
             (l, h3) \<Rightarrow> parse_typer_dicts (PRef l) h3))
     = Inr (Some [Some []]) \<and>
   normalized_kwargs
     (case alloc (ListObj [PNone]) [] of (l, h3) \<Rightarrow> parse_typer_dicts (PRef l) h3)
     = Inr (Some [Some []])"
proof -
  have a: "literal_eval_sample ''{}'' [] = Inr (PRef 0, [DictObj []])" by code_simp
  have b: "dict_items [DictObj []] (PRef 0) = Some []" by code_simp
  from empty_literal_same_as_no_flag[of literal_eval_sample "[]" "PRef 0" "[DictObj []]", OF a b]
    a b show ?thesis by blast
qed

section \<open>Validation in \<^verbatim>\<open>geomopt\<close>\<close>

text \<open>
  C2. With \<^verbatim>\<open>vectors_only=True\<close> and \<^verbatim>\<open>fully_opt=False\<close>, whatever the other
  options are, \<^verbatim>\<open>geomopt\<close> ends with a \<^verbatim>\<open>ValueError\<close> and has called no
  collaborator: the \<^verbatim>\<open>SinglePoint\<close> is not built. The error is the one about
  \<^verbatim>\<open>--vectors-only\<close>, or the normalizer's when one of the four dictionary options
  wraps a value that is no dictionary.
\<close>

theorem geomopt_vectors_only_requires_fully_opt:
  assumes "list_all (optional_typer_dict h) [read_kwargs, calc_kwargs, opt_kwargs, write_kwargs]"
  shows "\<exists>h' m. geomopt c struct_path fmax steps architecture device False True
             read_kwargs calc_kwargs opt_kwargs write_kwargs traj_file log_file h
           = (h', [], Some (ValueError m)) \<and>
           (m = VectorsOnlyRequiresFullyOpt \<or> (\<exists>v. m = MustBeDictionary v))"
  using assms
proof (cases rule: parse_fresh_list_cases)
  case (rejected h1 t v)
  then show ?thesis by (simp add: geomopt_def alloc_def)
next
  case (normalized h1 ys)
  then show ?thesis by (simp add: geomopt_def alloc_def unpack_def)
qed

theorem geomopt_vectors_only_requires_fully_opt_witness:
  "list_all (optional_typer_dict [TyperDict (PRef 1), DictObj [(PStr ''model'', PStr ''small'')]])
     [PNone, PRef 0, PNone, PNone] \<and>
   (\<exists>h'. geomopt returning (PPath ''water.xyz'') 1 1000 ''mace_mp'' ''cpu'' False True
        PNone (PRef 0) PNone PNone (PStr ''traj.xyz'') (PPath ''geomopt.log'')
        [TyperDict (PRef 1), DictObj [(PStr ''model'', PStr ''small'')]]
      = (h', [], Some (ValueError VectorsOnlyRequiresFullyOpt)))"
proof -
  let ?h = "[TyperDict (PRef 1), DictObj [(PStr ''model'', PStr ''small'')]]"
  have a: "list_all (optional_typer_dict ?h) [PNone, PRef 0, PNone, PNone]" by code_simp
  have e: "snd (snd (geomopt returning (PPath ''water.xyz'') 1 1000 ''mace_mp'' ''cpu'' False True
        PNone (PRef 0) PNone PNone (PStr ''traj.xyz'') (PPath ''geomopt.log'') ?h))
      = Some (ValueError VectorsOnlyRequiresFullyOpt)"
    by code_simp
  from geomopt_vectors_only_requires_fully_opt[OF a, of returning "PPath ''water.xyz''" 1 1000
      "''mace_mp''" "''cpu''" "PStr ''traj.xyz''" "PPath ''geomopt.log''"] e
  have "\<exists>h'. geomopt returning (PPath ''water.xyz'') 1 1000 ''mace_mp'' ''cpu'' False True
        PNone (PRef 0) PNone PNone (PStr ''traj.xyz'') (PPath ''geomopt.log'') ?h
      = (h', [], Some (ValueError VectorsOnlyRequiresFullyOpt))"
    by auto
  then show ?thesis using a by blast
qed

text \<open>
  C1, as the specification states it: whenever the optimizer options hold the key
  \<^verbatim>\<open>"trajectory"\<close>, \<^verbatim>\<open>geomopt\<close> raises its error before any structure load is
  attempted, that is before the \<^verbatim>\<open>SinglePoint\<close> is built. The source checks the key
  after it has built the \<^verbatim>\<open>SinglePoint\<close>. For the options
  \<^verbatim>\<open>{"trajectory": "x"}\<close> and no \<^verbatim>\<open>--traj\<close>, the record of calls holds the call of
  \<^verbatim>\<open>SinglePoint\<close> when the \<^verbatim>\<open>ValueError\<close> is raised; and when that call fails,
  its exception is what the command ends with.
\<close>

theorem geomopt_trajectory_key_counterexample:
  "snd (geomopt returning (PPath ''water.xyz'') 1 1000 ''mace_mp'' ''cpu'' False False
          PNone PNone (PRef 0) PNone PNone (PPath ''geomopt.log'')
          [TyperDict (PRef 1), DictObj [(PStr ''trajectory'', PStr ''x'')]])
   = ([SinglePointCall
         [TyperDict (PRef 1), DictObj [(PStr ''trajectory'', PStr ''x'')],
          ListObj [PRef 3, PRef 4, PRef 1, PRef 5], DictObj [], DictObj [], DictObj [],
          DictObj [(PStr ''filename'', PPath ''geomopt.log''), (PStr ''filemode'', PStr ''w'')]]
         \<lparr> sp_struct_path = PPath ''water.xyz'', sp_architecture = ''mace_mp'',
           sp_device = ''cpu'', sp_read_kwargs = PRef 3, sp_calc_kwargs = PRef 4,
           sp_log_kwargs = PRef 6 \<rparr>],
      Some (ValueError TrajectoryThroughTrajOption)) \<and>
   snd (snd (geomopt failing_load (PPath ''water.xyz'') 1 1000 ''mace_mp'' ''cpu'' False False
          PNone PNone (PRef 0) PNone PNone (PPath ''geomopt.log'')
          [TyperDict (PRef 1), DictObj [(PStr ''trajectory'', PStr ''x'')]]))
   = Some (Raised ''FileNotFoundError'')"
  by code_simp

text \<open>
  C1, amended. When the optimizer options hold the key \<^verbatim>\<open>"trajectory"\<close>, for any
  \<^verbatim>\<open>--traj\<close>, \<^verbatim>\<open>geomopt\<close> always ends with an exception, never calls
  \<^verbatim>\<open>optimize\<close> and leaves every object of the caller's store as it was. Either the
  normalizer or the \<^verbatim>\<open>--vectors-only\<close> check has rejected the invocation, and then
  no collaborator has been called; or the \<^verbatim>\<open>SinglePoint\<close> is built first, and the
  command ends with the \<^verbatim>\<open>ValueError\<close> about the key if that construction returns,
  and with the exception of the construction if it fails.
\<close>

theorem geomopt_trajectory_key_rejected_after_session:
  assumes "list_all (optional_typer_dict h) [read_kwargs, calc_kwargs, PRef t, write_kwargs]"
    and "lookup h t = Some (TyperDict d)" and "dict_items h d = Some kvs"
    and "PStr ''trajectory'' \<in> set (map fst kvs)"
  shows "\<exists>h' calls e.
           geomopt c struct_path fmax steps architecture device fully_opt vectors_only
             read_kwargs calc_kwargs (PRef t) write_kwargs traj_file log_file h
           = (h', calls, Some e) \<and>
           take (length h) h' = h \<and>
           ((calls = [] \<and>
               ((\<exists>v. e = ValueError (MustBeDictionary v)) \<or>
                (vectors_only \<and> \<not> fully_opt \<and> e = ValueError VectorsOnlyRequiresFullyOpt))) \<or>
            (\<exists>h2 sp. calls = [SinglePointCall h2 sp] \<and> (vectors_only \<longrightarrow> fully_opt) \<and>
               (case SinglePoint c h2 sp of
                  Inl x \<Rightarrow> e = Raised x
                | Inr s_point \<Rightarrow> e = ValueError TrajectoryThroughTrajOption)))"
  using assms(1)
proof (cases rule: parse_fresh_list_cases)
  case (rejected h1 t' v)
  then show ?thesis by (simp add: geomopt_def alloc_def)
next
  case (normalized h1 ys)
  have len: "length ys = 4" using normalized(4) by simp
  have un: "unpack 4 h1 (PRef (length h)) = Inr ys"
    using normalized(3) len by (simp add: unpack_def)
  show ?thesis
  proof (cases "\<not> fully_opt \<and> vectors_only")
    case True
    then show ?thesis using normalized(1,2) un by (simp add: geomopt_def alloc_def)
  next
    case False
    let ?h2 = "h1 @ [DictObj [(PStr ''filename'', log_file), (PStr ''filemode'', PStr ''w'')]]"
    let ?sp = "\<lparr> sp_struct_path = struct_path, sp_architecture = architecture,
                 sp_device = device, sp_read_kwargs = ys ! 0, sp_calc_kwargs = ys ! 1,
                 sp_log_kwargs = PRef (length h1) \<rparr>"
    have y2: "ys ! 2 = d" using normalized(5)[rule_format, of 2] assms(2) by simp
    have "dict_items ?h2 d = Some kvs" using normalized(2) assms(3) by (rule dict_items_take)
    then have c: "contains ?h2 (PStr ''trajectory'') (ys ! 2) = Inr True"
      using y2 assms(4) by (simp add: contains_dict)
    have tk: "take (length h) ?h2 = h" using normalized(2) by (rule take_append_keep)
    have g: "geomopt c struct_path fmax steps architecture device fully_opt vectors_only
             read_kwargs calc_kwargs (PRef t) write_kwargs traj_file log_file h
           = (?h2, [SinglePointCall ?h2 ?sp],
              Some (case SinglePoint c ?h2 ?sp of
                      Inl x \<Rightarrow> Raised x
                    | Inr s_point \<Rightarrow> ValueError TrajectoryThroughTrajOption))"
      using False normalized(1) un c
      by (simp add: geomopt_def alloc_def Let_def split: sum.splits)
    have "vectors_only \<longrightarrow> fully_opt" using False by blast
    then show ?thesis using tk unfolding g
      by (auto split: sum.splits)
  qed
qed

text \<open>
  The amended statement at the invocation of the counterexample, with a trajectory path
  given as well: the \<^verbatim>\<open>SinglePoint\<close> has been called once, the command ends with the
  \<^verbatim>\<open>ValueError\<close> about the key, and the store of the caller is as it was.
\<close>

theorem geomopt_trajectory_key_rejected_after_session_witness:
  "list_all (optional_typer_dict [TyperDict (PRef 1), DictObj [(PStr ''trajectory'', PStr ''x'')]])
     [PNone, PNone, PRef 0, PNone] \<and>
   lookup [TyperDict (PRef 1), DictObj [(PStr ''trajectory'', PStr ''x'')]] 0
     = Some (TyperDict (PRef 1)) \<and>
   dict_items [TyperDict (PRef 1), DictObj [(PStr ''trajectory'', PStr ''x'')]] (PRef 1)
     = Some [(PStr ''trajectory'', PStr ''x'')] \<and>
   PStr ''trajectory'' \<in> set (map fst [(PStr ''trajectory'', PStr ''x'')]) \<and>
   (\<exists>h' h2 sp.
      geomopt returning (PPath ''water.xyz'') 1 1000 ''mace_mp'' ''cpu'' True False
        PNone PNone (PRef 0) PNone (PStr ''traj.xyz'') (PPath ''geomopt.log'')
        [TyperDict (PRef 1), DictObj [(PStr ''trajectory'', PStr ''x'')]]
      = (h', [SinglePointCall h2 sp], Some (ValueError TrajectoryThroughTrajOption)) \<and>
      take 2 h' = [TyperDict (PRef 1), DictObj [(PStr ''trajectory'', PStr ''x'')]])"
proof -
  let ?h = "[TyperDict (PRef 1), DictObj [(PStr ''trajectory'', PStr ''x'')]]"
  have a: "list_all (optional_typer_dict ?h) [PNone, PNone, PRef 0, PNone]" by code_simp
  have b: "lookup ?h 0 = Some (TyperDict (PRef 1))" by code_simp
  have c: "dict_items ?h (PRef 1) = Some [(PStr ''trajectory'', PStr ''x'')]" by code_simp
  have d: "PStr ''trajectory'' \<in> set (map fst [(PStr ''trajectory'', PStr ''x'')])" by simp
  have len: "length ?h = 2" by simp
  let ?run = "geomopt returning (PPath ''water.xyz'') 1 1000 ''mace_mp'' ''cpu'' True False
        PNone PNone (PRef 0) PNone (PStr ''traj.xyz'') (PPath ''geomopt.log'') ?h"
  have e: "snd (snd ?run) = Some (ValueError TrajectoryThroughTrajOption)" by code_simp
  from geomopt_trajectory_key_rejected_after_session[OF a b c d, of returning
      "PPath ''water.xyz''" 1 1000 "''mace_mp''" "''cpu''" True False "PStr ''traj.xyz''"
      "PPath ''geomopt.log''"]
  obtain h' calls e' where g: "?run = (h', calls, Some e')" and tk: "take (length ?h) h' = ?h"
    and shape: "(calls = [] \<and>
               ((\<exists>v. e' = ValueError (MustBeDictionary v)) \<or>
                (False \<and> \<not> True \<and> e' = ValueError VectorsOnlyRequiresFullyOpt))) \<or>
            (\<exists>h2 sp. calls = [SinglePointCall h2 sp] \<and> (False \<longrightarrow> True) \<and>
               (case SinglePoint returning h2 sp of
                  Inl x \<Rightarrow> e' = Raised x
                | Inr s_point \<Rightarrow> e' = ValueError TrajectoryThroughTrajOption))"
    by blast
  have e': "e' = ValueError TrajectoryThroughTrajOption" using e g by simp
  with shape obtain h2 sp where "calls = [SinglePointCall h2 sp]" by auto
  moreover have "take 2 h' = ?h" using tk by (simp only: len)
  ultimately have "\<exists>h' h2 sp. ?run
      = (h', [SinglePointCall h2 sp], Some (ValueError TrajectoryThroughTrajOption)) \<and>
      take 2 h' = ?h"
    using g e' by blast
  then show ?thesis using a b c d by blast
qed

text \<open>
  C7. When \<^verbatim>\<open>geomopt\<close> ends with one of its two validation errors
  (\<^verbatim>\<open>--vectors-only\<close> without \<^verbatim>\<open>--fully-opt\<close>, or the key \<^verbatim>\<open>"trajectory"\<close> in the
  optimizer options), every object of the store the caller passed in is unchanged. In
  particular the \<^verbatim>\<open>TyperDict\<close> given as \<^verbatim>\<open>opt_kwargs\<close> wraps the same dictionary
  with the same items: no entry \<^verbatim>\<open>"trajectory"\<close> has been written into it.
\<close>

theorem geomopt_rejection_leaves_store:
  assumes "geomopt c struct_path fmax steps architecture device fully_opt vectors_only
             read_kwargs calc_kwargs opt_kwargs write_kwargs traj_file log_file h
           = (h', calls, Some (ValueError m))"
    and "m = VectorsOnlyRequiresFullyOpt \<or> m = TrajectoryThroughTrajOption"
  shows "take (length h) h' = h \<and>
         (\<forall>t v kvs. opt_kwargs = PRef t \<longrightarrow> lookup h t = Some (TyperDict v) \<longrightarrow>
            dict_items h v = Some kvs \<longrightarrow>
            lookup h' t = Some (TyperDict v) \<and> dict_items h' v = Some kvs)"
proof -
  obtain h1 r1 where p: "parse_typer_dicts (PRef (length h))
      (h @ [ListObj [read_kwargs, calc_kwargs, opt_kwargs, write_kwargs]]) = (h1, r1)"
    by (cases "parse_typer_dicts (PRef (length h))
      (h @ [ListObj [read_kwargs, calc_kwargs, opt_kwargs, write_kwargs]])")
  have tk1: "take (length h) h1 = h" using p by (rule parse_fresh_list_frame)
  have "h' = h1 \<or> (\<exists>ob. h' = h1 @ [ob])"
    using assms p
    by (auto simp: geomopt_def alloc_def Let_def
        split: prod.splits sum.splits if_splits bool.splits
        dest: contains_error setitem_error unpack_error)
  then have tk: "take (length h) h' = h"
    using tk1 take_append_keep by blast
  have "lookup h' t = Some (TyperDict v) \<and> dict_items h' v = Some kvs"
    if "lookup h t = Some (TyperDict v)" "dict_items h v = Some kvs" for t v kvs
  proof -
    have "t < length h" using that(1) by (simp add: lookup_Some_iff)
    then have a: "lookup h' t = Some (TyperDict v)"
      using take_lookup[OF tk, of t "[]"] that(1) by simp
    from dict_items_take[OF tk that(2), of "[]"] have "dict_items h' v = Some kvs" by simp
    then show ?thesis using a by simp
  qed
  then show ?thesis using tk by blast
qed

text \<open>
  The theorem at an invocation rejected for the key \<^verbatim>\<open>"trajectory"\<close> and at one
  rejected for \<^verbatim>\<open>--vectors-only\<close>, both with the optimizer options
  \<^verbatim>\<open>{"trajectory": "x"}\<close>.
\<close>

theorem geomopt_rejection_leaves_store_witness:
  "(\<exists>h' calls.
      geomopt returning (PPath ''water.xyz'') 1 1000 ''mace_mp'' ''cpu'' False False
        PNone PNone (PRef 0) PNone (PStr ''traj.xyz'') (PPath ''geomopt.log'')
        [TyperDict (PRef 1), DictObj [(PStr ''trajectory'', PStr ''x'')]]
      = (h', calls, Some (ValueError TrajectoryThroughTrajOption)) \<and>
      take 2 h' = [TyperDict (PRef 1), DictObj [(PStr ''trajectory'', PStr ''x'')]] \<and>
      lookup h' 0 = Some (TyperDict (PRef 1)) \<and>
      dict_items h' (PRef 1) = Some [(PStr ''trajectory'', PStr ''x'')]) \<and>
   (\<exists>h' calls.
      geomopt returning (PPath ''water.xyz'') 1 1000 ''mace_mp'' ''cpu'' False True
        PNone PNone (PRef 0) PNone (PStr ''traj.xyz'') (PPath ''geomopt.log'')
        [TyperDict (PRef 1), DictObj [(PStr ''trajectory'', PStr ''x'')]]
      = (h', calls, Some (ValueError VectorsOnlyRequiresFullyOpt)) \<and>
      take 2 h' = [TyperDict (PRef 1), DictObj [(PStr ''trajectory'', PStr ''x'')]] \<and>
      lookup h' 0 = Some (TyperDict (PRef 1)) \<and>
      dict_items h' (PRef 1) = Some [(PStr ''trajectory'', PStr ''x'')])"
proof -
  let ?h = "[TyperDict (PRef 1), DictObj [(PStr ''trajectory'', PStr ''x'')]]"
  let ?run = "\<lambda>vectors_only. geomopt returning (PPath ''water.xyz'') 1 1000 ''mace_mp'' ''cpu''
        False vectors_only PNone PNone (PRef 0) PNone (PStr ''traj.xyz'') (PPath ''geomopt.log'') ?h"
  have b: "lookup ?h 0 = Some (TyperDict (PRef 1))" by code_simp
  have c: "dict_items ?h (PRef 1) = Some [(PStr ''trajectory'', PStr ''x'')]" by code_simp
  have e1: "snd (snd (?run False)) = Some (ValueError TrajectoryThroughTrajOption)" by code_simp
  have e2: "snd (snd (?run True)) = Some (ValueError VectorsOnlyRequiresFullyOpt)" by code_simp
  obtain h1 calls1 where g1:
    "?run False = (h1, calls1, Some (ValueError TrajectoryThroughTrajOption))"
    using e1 by (cases "?run False") auto
  obtain h2 calls2 where g2:
    "?run True = (h2, calls2, Some (ValueError VectorsOnlyRequiresFullyOpt))"
    using e2 by (cases "?run True") auto
  have len: "length ?h = 2" by simp
  note s1 = geomopt_rejection_leaves_store[OF g1 disjI2[OF refl]]
  note s2 = geomopt_rejection_leaves_store[OF g2 disjI1[OF refl]]
  have r1: "take 2 h1 = ?h \<and> lookup h1 0 = Some (TyperDict (PRef 1)) \<and>
            dict_items h1 (PRef 1) = Some [(PStr ''trajectory'', PStr ''x'')]"
    using s1[THEN conjunct1] s1[THEN conjunct2, rule_format, OF refl b c]
    by (simp only: len)
  have r2: "take 2 h2 = ?h \<and> lookup h2 0 = Some (TyperDict (PRef 1)) \<and>
            dict_items h2 (PRef 1) = Some [(PStr ''trajectory'', PStr ''x'')]"
    using s2[THEN conjunct1] s2[THEN conjunct2, rule_format, OF refl b c]
    by (simp only: len)
  show ?thesis using g1 g2 r1 r2 by blast
qed

section \<open>The plan handed to \<^verbatim>\<open>optimize\<close>\<close>

text \<open>
  C3. When \<^verbatim>\<open>geomopt\<close> ends without an exception it has called \<^verbatim>\<open>SinglePoint\<close>
  and then \<^verbatim>\<open>optimize\<close>, and the filter it has passed is: with
  \<^verbatim>\<open>fully_opt=False\<close>, whatever \<^verbatim>\<open>vectors_only\<close> is, \<^verbatim>\<open>filter_kwargs=None\<close>
  together with the keyword \<^verbatim>\<open>filter_func=None\<close>; with \<^verbatim>\<open>fully_opt=True\<close>, the
  dictionary \<^verbatim>\<open>{"hydrostatic_strain": vectors_only}\<close> and no keyword
  \<^verbatim>\<open>filter_func\<close>.
\<close>

theorem geomopt_filter_configuration:
  assumes "geomopt c struct_path fmax steps architecture device fully_opt vectors_only
             read_kwargs calc_kwargs opt_kwargs write_kwargs traj_file log_file h
           = (h', calls, None)"
  shows "\<exists>h2 sp oa. calls = [SinglePointCall h2 sp, OptimizeCall h' oa] \<and>
           (if fully_opt
            then dict_items h' (opt_filter_kwargs oa) =
                   Some [(PStr ''hydrostatic_strain'', PBool vectors_only)] \<and>
                 opt_star_kwargs oa = []
            else opt_filter_kwargs oa = PNone \<and>
                 opt_star_kwargs oa = [(''filter_func'', PNone)])"
  using assms
  by (auto simp: geomopt_def alloc_def Let_def dict_items_def lookup_def nth_append
      split: prod.splits sum.splits if_splits bool.splits)

text \<open>
  The theorem at \<^verbatim>\<open>--fully-opt --vectors-only\<close>, at \<^verbatim>\<open>--fully-opt\<close> alone and at
  neither flag.
\<close>

theorem geomopt_filter_configuration_witness:
  "(\<exists>h' h2 sp oa.
      geomopt returning (PPath ''water.xyz'') 1 500 ''mace_mp'' ''cpu'' True True
        PNone PNone PNone PNone PNone (PPath ''geomopt.log'') []
      = (h', [SinglePointCall h2 sp, OptimizeCall h' oa], None) \<and>
      dict_items h' (opt_filter_kwargs oa) = Some [(PStr ''hydrostatic_strain'', PBool True)] \<and>
      opt_star_kwargs oa = []) \<and>
   (\<exists>h' h2 sp oa.
      geomopt returning (PPath ''water.xyz'') 1 500 ''mace_mp'' ''cpu'' True False
        PNone PNone PNone PNone PNone (PPath ''geomopt.log'') []
      = (h', [SinglePointCall h2 sp, OptimizeCall h' oa], None) \<and>
      dict_items h' (opt_filter_kwargs oa) = Some [(PStr ''hydrostatic_strain'', PBool False)] \<and>
      opt_star_kwargs oa = []) \<and>
   (\<exists>h' h2 sp oa.
      geomopt returning (PPath ''water.xyz'') 1 500 ''mace_mp'' ''cpu'' False False
        PNone PNone PNone PNone PNone (PPath ''geomopt.log'') []
      = (h', [SinglePointCall h2 sp, OptimizeCall h' oa], None) \<and>
      opt_filter_kwargs oa = PNone \<and> opt_star_kwargs oa = [(''filter_func'', PNone)])"
proof -
  let ?run = "\<lambda>fully_opt vectors_only.
      geomopt returning (PPath ''water.xyz'') 1 500 ''mace_mp'' ''cpu'' fully_opt vectors_only
        PNone PNone PNone PNone PNone (PPath ''geomopt.log'') []"
  have e1: "snd (snd (?run True True)) = None" by code_simp
  have e2: "snd (snd (?run True False)) = None" by code_simp
  have e3: "snd (snd (?run False False)) = None" by code_simp
  obtain h1 calls1 where g1: "?run True True = (h1, calls1, None)"
    using e1 by (cases "?run True True") auto
  obtain h2 calls2 where g2: "?run True False = (h2, calls2, None)"
    using e2 by (cases "?run True False") auto
  obtain h3 calls3 where g3: "?run False False = (h3, calls3, None)"
    using e3 by (cases "?run False False") auto
  from geomopt_filter_configuration[OF g1] g1
  have r1: "\<exists>h' h2 sp oa. ?run True True = (h', [SinglePointCall h2 sp, OptimizeCall h' oa], None) \<and>
      dict_items h' (opt_filter_kwargs oa) = Some [(PStr ''hydrostatic_strain'', PBool True)] \<and>
      opt_star_kwargs oa = []"
    by auto
  from geomopt_filter_configuration[OF g2] g2
  have r2: "\<exists>h' h2 sp oa. ?run True False = (h', [SinglePointCall h2 sp, OptimizeCall h' oa], None) \<and>
      dict_items h' (opt_filter_kwargs oa) = Some [(PStr ''hydrostatic_strain'', PBool False)] \<and>
      opt_star_kwargs oa = []"
    by auto
  from geomopt_filter_configuration[OF g3] g3
  have r3: "\<exists>h' h2 sp oa. ?run False False = (h', [SinglePointCall h2 sp, OptimizeCall h' oa], None) \<and>
      opt_filter_kwargs oa = PNone \<and> opt_star_kwargs oa = [(''filter_func'', PNone)]"
    by auto
  show ?thesis using r1 r2 r3 by blast
qed

text \<open>
  C6, as the specification states it: after a run without exception the entry
  \<^verbatim>\<open>"trajectory"\<close> of the optimizer options is the value of \<^verbatim>\<open>--traj\<close> when one was
  supplied, and the trajectory-write configuration holds that path. The source tests the
  truth value of \<^verbatim>\<open>traj_file\<close>, so the empty string, as \<^verbatim>\<open>--traj ""\<close> supplies it,
  is treated like no option at all: the entry is \<^verbatim>\<open>None\<close> and there is no
  trajectory-write configuration.
\<close>

theorem geomopt_trajectory_wiring_counterexample:
  "geomopt returning (PPath ''water.xyz'') 1 1000 ''mace_mp'' ''cpu'' False False
     PNone PNone PNone PNone (PStr []) (PPath ''geomopt.log'') []
   = ([ListObj [PRef 1, PRef 2, PRef 3, PRef 4], DictObj [], DictObj [],
       DictObj [(PStr ''trajectory'', PNone)], DictObj [],
       DictObj [(PStr ''filename'', PPath ''geomopt.log''), (PStr ''filemode'', PStr ''w'')],
       DictObj [(PStr ''filename'', PPath ''geomopt.log''), (PStr ''filemode'', PStr ''a'')]],
      [SinglePointCall
         [ListObj [PRef 1, PRef 2, PRef 3, PRef 4], DictObj [], DictObj [], DictObj [],
          DictObj [],
          DictObj [(PStr ''filename'', PPath ''geomopt.log''), (PStr ''filemode'', PStr ''w'')]]
         \<lparr> sp_struct_path = PPath ''water.xyz'', sp_architecture = ''mace_mp'',
           sp_device = ''cpu'', sp_read_kwargs = PRef 1, sp_calc_kwargs = PRef 2,
           sp_log_kwargs = PRef 5 \<rparr>,
       OptimizeCall
         [ListObj [PRef 1, PRef 2, PRef 3, PRef 4], DictObj [], DictObj [],
          DictObj [(PStr ''trajectory'', PNone)], DictObj [],
          DictObj [(PStr ''filename'', PPath ''geomopt.log''), (PStr ''filemode'', PStr ''w'')],
          DictObj [(PStr ''filename'', PPath ''geomopt.log''), (PStr ''filemode'', PStr ''a'')]]
         \<lparr> opt_struct = (), opt_fmax = 1, opt_steps = 1000, opt_filter_kwargs = PNone,
           opt_star_kwargs = [(''filter_func'', PNone)], opt_opt_kwargs = PRef 3,
           opt_write_results = True, opt_write_kwargs = PRef 4, opt_traj_kwargs = PNone,
           opt_log_kwargs = PRef 6 \<rparr>],
      None)"
  by code_simp

text \<open>
  C6, amended. After a run of \<^verbatim>\<open>geomopt\<close> without exception, the dictionary passed to
  \<^verbatim>\<open>optimize\<close> as \<^verbatim>\<open>opt_kwargs\<close> holds the items that were supplied (none when the
  option was absent; when it was given, the dictionary is the very one the
  \<^verbatim>\<open>TyperDict\<close> wraps) followed by one entry \<^verbatim>\<open>"trajectory"\<close>, a key the supplied
  items did not have. The entry is the value of \<^verbatim>\<open>--traj\<close> when that is a non-empty
  string, and then \<^verbatim>\<open>traj_kwargs\<close> is \<^verbatim>\<open>{"filename": traj_file}\<close>; it is
  \<^verbatim>\<open>None\<close> when \<^verbatim>\<open>--traj\<close> is absent or the empty string, and then
  \<^verbatim>\<open>traj_kwargs\<close> is \<^verbatim>\<open>None\<close>.
\<close>

theorem geomopt_trajectory_wiring:
  assumes "geomopt c struct_path fmax steps architecture device fully_opt vectors_only
             read_kwargs calc_kwargs opt_kwargs write_kwargs traj_file log_file h
           = (h', calls, None)"
    and "list_all (optional_typer_dict h) [read_kwargs, calc_kwargs, opt_kwargs, write_kwargs]"
    and "traj_file = PNone \<or> (\<exists>p. traj_file = PStr p)"
  shows "\<exists>h2 sp oa items. calls = [SinglePointCall h2 sp, OptimizeCall h' oa] \<and>
           ((opt_kwargs = PNone \<and> items = []) \<or>
            (\<exists>t. opt_kwargs = PRef t \<and> lookup h t = Some (TyperDict (opt_opt_kwargs oa)) \<and>
               dict_items h (opt_opt_kwargs oa) = Some items)) \<and>
           PStr ''trajectory'' \<notin> set (map fst items) \<and>
           (if traj_file = PNone \<or> traj_file = PStr []
            then dict_items h' (opt_opt_kwargs oa) = Some (items @ [(PStr ''trajectory'', PNone)]) \<and>
                 opt_traj_kwargs oa = PNone
            else dict_items h' (opt_opt_kwargs oa) =
                   Some (items @ [(PStr ''trajectory'', traj_file)]) \<and>
                 dict_items h' (opt_traj_kwargs oa) = Some [(PStr ''filename'', traj_file)])"
  using assms(2)
proof (cases rule: parse_fresh_list_cases)
  case (rejected h1 t' v)
  then show ?thesis using assms(1) by (simp add: geomopt_def alloc_def)
next
  case (normalized h1 ys)
  have len: "length ys = 4" using normalized(4) by simp
  have un: "unpack 4 h1 (PRef (length h)) = Inr ys"
    using normalized(3) len by (simp add: unpack_def)
  let ?h2 = "h1 @ [DictObj [(PStr ''filename'', log_file), (PStr ''filemode'', PStr ''w'')]]"
  let ?sp = "\<lparr> sp_struct_path = struct_path, sp_architecture = architecture,
               sp_device = device, sp_read_kwargs = ys ! 0, sp_calc_kwargs = ys ! 1,
               sp_log_kwargs = PRef (length h1) \<rparr>"
  note e2 = normalized(5)[rule_format, of 2]
  have "isinstance_dict h1 (ys ! 2)" using e2 by simp
  then obtain items where it: "dict_items h1 (ys ! 2) = Some items"
    using isinstance_dict_items by blast
  then obtain a where a: "ys ! 2 = PRef a" "a < length h1" "h1 ! a = DictObj items"
    by (auto simp: dict_items_Some_iff)
  have "optional_typer_dict h opt_kwargs" using assms(2) by simp
  then have src: "(opt_kwargs = PNone \<and> items = []) \<or>
            (\<exists>t. opt_kwargs = PRef t \<and> lookup h t = Some (TyperDict (ys ! 2)) \<and>
               dict_items h (ys ! 2) = Some items)"
  proof (cases opt_kwargs)
    case PNone
    then show ?thesis using e2 it by simp
  next
    case (PRef t)
    with \<open>optional_typer_dict h opt_kwargs\<close> obtain v where v: "lookup h t = Some (TyperDict v)"
      by (auto simp: optional_typer_dict_def split: option.splits pyobj.splits)
    with e2 PRef have yv: "ys ! 2 = v" "isinstance_dict h v" by simp_all
    then obtain kvs where kvs: "dict_items h v = Some kvs" using isinstance_dict_items by blast
    from dict_items_take[OF normalized(2) kvs, of "[]"] it yv(1) have "kvs = items" by simp
    then show ?thesis using PRef v yv(1) kvs by simp
  qed (simp_all add: optional_typer_dict_def)
  have it2: "dict_items ?h2 (PRef a) = Some items" using it a(1) by (simp add: dict_items_append)
  have c: "contains ?h2 (PStr ''trajectory'') (ys ! 2) =
             Inr (PStr ''trajectory'' \<in> set (map fst items))"
    using it2 a(1) by (simp add: contains_dict)
  have tr: "truthy g traj_file \<longleftrightarrow> \<not> (traj_file = PNone \<or> traj_file = PStr [])" for g
    using assms(3) by auto
  show ?thesis
  proof (cases "PStr ''trajectory'' \<in> set (map fst items)")
    case True
    then show ?thesis using assms(1) normalized(1) un c
      by (auto simp: geomopt_def alloc_def Let_def split: sum.splits if_splits)
  next
    case False
    have a2: "a < length ?h2" using a(2) by simp
    show ?thesis using assms(1) normalized(1) un c False src a(1) a2 tr
      by (auto simp: geomopt_def alloc_def Let_def setitem_dict[OF it2] dict_update_new
          dict_items_update_other[of a ?h2 _ "[]", simplified] dict_items_def lookup_def nth_append
          split: sum.splits if_splits)
  qed
qed

text \<open>
  The amended statement at \<^verbatim>\<open>--opt-kwargs "{'alpha': 1}" --traj traj.xyz\<close>.
\<close>

theorem geomopt_trajectory_wiring_witness:
  "list_all (optional_typer_dict [TyperDict (PRef 1), DictObj [(PStr ''alpha'', PInt 1)]])
     [PNone, PNone, PRef 0, PNone] \<and>
   (\<exists>h' h2 sp oa.
      geomopt returning (PPath ''water.xyz'') 1 1000 ''mace_mp'' ''cpu'' False False
        PNone PNone (PRef 0) PNone (PStr ''traj.xyz'') (PPath ''geomopt.log'')
        [TyperDict (PRef 1), DictObj [(PStr ''alpha'', PInt 1)]]
      = (h', [SinglePointCall h2 sp, OptimizeCall h' oa], None) \<and>
      opt_opt_kwargs oa = PRef 1 \<and>
      dict_items h' (opt_opt_kwargs oa) =
        Some [(PStr ''alpha'', PInt 1), (PStr ''trajectory'', PStr ''traj.xyz'')] \<and>
      dict_items h' (opt_traj_kwargs oa) = Some [(PStr ''filename'', PStr ''traj.xyz'')])"
proof -
  let ?h = "[TyperDict (PRef 1), DictObj [(PStr ''alpha'', PInt 1)]]"
  let ?run = "geomopt returning (PPath ''water.xyz'') 1 1000 ''mace_mp'' ''cpu'' False False
        PNone PNone (PRef 0) PNone (PStr ''traj.xyz'') (PPath ''geomopt.log'') ?h"
  have a: "list_all (optional_typer_dict ?h) [PNone, PNone, PRef 0, PNone]" by code_simp
  have b: "PStr ''traj.xyz'' = PNone \<or> (\<exists>p. PStr ''traj.xyz'' = PStr p)" by simp
  have e: "snd (snd ?run) = None" by code_simp
  obtain h' calls where g: "?run = (h', calls, None)" using e by (cases ?run) auto
  from geomopt_trajectory_wiring[OF g a b]
  obtain h2 sp oa items where r: "calls = [SinglePointCall h2 sp, OptimizeCall h' oa]"
    "lookup ?h 0 = Some (TyperDict (opt_opt_kwargs oa))"
    "dict_items ?h (opt_opt_kwargs oa) = Some items"
    "dict_items h' (opt_opt_kwargs oa) = Some (items @ [(PStr ''trajectory'', PStr ''traj.xyz'')])"
    "dict_items h' (opt_traj_kwargs oa) = Some [(PStr ''filename'', PStr ''traj.xyz'')]"
    by auto
  from r(2) have o: "opt_opt_kwargs oa = PRef 1" by (simp add: lookup_def)
  with r(3) have "items = [(PStr ''alpha'', PInt 1)]" by (simp add: dict_items_def lookup_def)
  then show ?thesis using a g r(1,4,5) o by auto
qed

section \<open>Log configuration\<close>

text \<open>
  C8, as the specification states it: every invocation of \<^verbatim>\<open>geomopt\<close> passes the log
  path twice, in write mode to the \<^verbatim>\<open>SinglePoint\<close> and in append mode to
  \<^verbatim>\<open>optimize\<close>, and every invocation of \<^verbatim>\<open>singlepoint\<close> passes it once in write
  mode. An invocation that is rejected before the \<^verbatim>\<open>SinglePoint\<close> is built passes no
  log configuration at all: \<^verbatim>\<open>geomopt --vectors-only\<close> without \<^verbatim>\<open>--fully-opt\<close>, and
  \<^verbatim>\<open>singlepoint --read-kwargs 5\<close>, call no collaborator.
\<close>

theorem log_configuration_sequencing_counterexample:
  "geomopt returning (PPath ''water.xyz'') 1 1000 ''mace_mp'' ''cpu'' False True
     PNone PNone PNone PNone PNone (PPath ''geomopt.log'') []
   = ([ListObj [PRef 1, PRef 2, PRef 3, PRef 4], DictObj [], DictObj [], DictObj [],
       DictObj []],
      [], Some (ValueError VectorsOnlyRequiresFullyOpt)) \<and>
   singlepoint returning (PPath ''water.xyz'') ''mace_mp'' ''cpu'' PNone
     (PRef 0) PNone PNone (PPath ''singlepoint.log'') [TyperDict (PInt 5)]
   = ([TyperDict (PInt 5), ListObj [PInt 5, PNone, PNone]],
      [], Some (ValueError (MustBeDictionary (PInt 5))))"
  by code_simp

text \<open>
  C8, amended. The calls of collaborators that an invocation of \<^verbatim>\<open>geomopt\<close> makes are
  none, and then it ends with an exception; or the call of \<^verbatim>\<open>SinglePoint\<close> alone, with
  \<^verbatim>\<open>log_kwargs = {"filename": log_file, "filemode": "w"}\<close>, and then it ends with an
  exception; or that call followed by the call of \<^verbatim>\<open>optimize\<close> with
  \<^verbatim>\<open>log_kwargs = {"filename": log_file, "filemode": "a"}\<close>, the same path. So every
  invocation that reaches the optimization, and every one that ends without exception,
  passes the same log path twice, first in write mode and then in append mode. In the same
  way every invocation of \<^verbatim>\<open>singlepoint\<close> that reaches the construction of the
  \<^verbatim>\<open>SinglePoint\<close> passes its log path once, in write mode; the call of \<^verbatim>\<open>run\<close>
  gets no log configuration.
\<close>

theorem log_configuration_sequencing:
  assumes "geomopt c struct_path fmax steps architecture device fully_opt vectors_only
             read_kwargs calc_kwargs opt_kwargs write_kwargs traj_file log_file h
           = (h', calls, res)"
    and "singlepoint c struct_path' architecture' device' properties
             read_kwargs' calc_kwargs' write_kwargs' log_file' g
           = (g', calls', res')"
  shows "((calls = [] \<and> res \<noteq> None) \<or>
          (\<exists>h2 sp. calls = [SinglePointCall h2 sp] \<and> res \<noteq> None \<and>
             dict_items h2 (sp_log_kwargs sp) =
               Some [(PStr ''filename'', log_file), (PStr ''filemode'', PStr ''w'')]) \<or>
          (\<exists>h2 sp oa. calls = [SinglePointCall h2 sp, OptimizeCall h' oa] \<and>
             dict_items h2 (sp_log_kwargs sp) =
               Some [(PStr ''filename'', log_file), (PStr ''filemode'', PStr ''w'')] \<and>
             dict_items h' (opt_log_kwargs oa) =
               Some [(PStr ''filename'', log_file), (PStr ''filemode'', PStr ''a'')])) \<and>
         ((calls' = [] \<and> res' \<noteq> None) \<or>
          (\<exists>g2 sp. calls' = [SinglePointCall g2 sp] \<and> res' \<noteq> None \<and>
             dict_items g2 (sp_log_kwargs sp) =
               Some [(PStr ''filename'', log_file'), (PStr ''filemode'', PStr ''w'')]) \<or>
          (\<exists>g2 sp ra. calls' = [SinglePointCall g2 sp, RunCall g2 ra] \<and>
             dict_items g2 (sp_log_kwargs sp) =
               Some [(PStr ''filename'', log_file'), (PStr ''filemode'', PStr ''w'')]))"
proof -
  have a: "(calls = [] \<and> res \<noteq> None) \<or>
          (\<exists>h2 sp. calls = [SinglePointCall h2 sp] \<and> res \<noteq> None \<and>
             dict_items h2 (sp_log_kwargs sp) =
               Some [(PStr ''filename'', log_file), (PStr ''filemode'', PStr ''w'')]) \<or>
          (\<exists>h2 sp oa. calls = [SinglePointCall h2 sp, OptimizeCall h' oa] \<and>
             dict_items h2 (sp_log_kwargs sp) =
               Some [(PStr ''filename'', log_file), (PStr ''filemode'', PStr ''w'')] \<and>
             dict_items h' (opt_log_kwargs oa) =
               Some [(PStr ''filename'', log_file), (PStr ''filemode'', PStr ''a'')])"
    using assms(1)
    by (auto simp: geomopt_def alloc_def Let_def dict_items_def lookup_def nth_append
        split: prod.splits sum.splits if_splits bool.splits)
  have b: "(calls' = [] \<and> res' \<noteq> None) \<or>
          (\<exists>g2 sp. calls' = [SinglePointCall g2 sp] \<and> res' \<noteq> None \<and>
             dict_items g2 (sp_log_kwargs sp) =
               Some [(PStr ''filename'', log_file'), (PStr ''filemode'', PStr ''w'')]) \<or>
          (\<exists>g2 sp ra. calls' = [SinglePointCall g2 sp, RunCall g2 ra] \<and>
             dict_items g2 (sp_log_kwargs sp) =
               Some [(PStr ''filename'', log_file'), (PStr ''filemode'', PStr ''w'')])"
    using assms(2)
    by (auto simp: singlepoint_def alloc_def Let_def dict_items_def lookup_def nth_append
        split: prod.splits sum.splits if_splits bool.splits)
  show ?thesis using a b by blast
qed

text \<open>
  The amended statement at a run of each command that ends without exception.
\<close>

theorem log_configuration_sequencing_witness:
  "(\<exists>h' h2 sp oa.
      geomopt returning (PPath ''water.xyz'') 1 500 ''mace_mp'' ''cpu'' True False
        PNone PNone PNone PNone PNone (PPath ''geomopt.log'') []
      = (h', [SinglePointCall h2 sp, OptimizeCall h' oa], None) \<and>
      dict_items h2 (sp_log_kwargs sp) =
        Some [(PStr ''filename'', PPath ''geomopt.log''), (PStr ''filemode'', PStr ''w'')] \<and>
      dict_items h' (opt_log_kwargs oa) =
        Some [(PStr ''filename'', PPath ''geomopt.log''), (PStr ''filemode'', PStr ''a'')]) \<and>
   (\<exists>g' g2 sp ra.
      singlepoint returning (PPath ''water.xyz'') ''mace_mp'' ''cpu'' PNone
        PNone PNone PNone (PPath ''singlepoint.log'') []
      = (g', [SinglePointCall g2 sp, RunCall g2 ra], None) \<and>
      dict_items g2 (sp_log_kwargs sp) =
        Some [(PStr ''filename'', PPath ''singlepoint.log''), (PStr ''filemode'', PStr ''w'')])"
proof -
  let ?geomopt = "geomopt returning (PPath ''water.xyz'') 1 500 ''mace_mp'' ''cpu'' True False
        PNone PNone PNone PNone PNone (PPath ''geomopt.log'') []"
  let ?singlepoint = "singlepoint returning (PPath ''water.xyz'') ''mace_mp'' ''cpu'' PNone
        PNone PNone PNone (PPath ''singlepoint.log'') []"
  have e1: "snd (snd ?geomopt) = None" by code_simp
  have e2: "snd (snd ?singlepoint) = None" by code_simp
  obtain h' calls where g1: "?geomopt = (h', calls, None)" using e1 by (cases ?geomopt) auto
  obtain g' calls' where g2: "?singlepoint = (g', calls', None)"
    using e2 by (cases ?singlepoint) auto
  note r = log_configuration_sequencing[OF g1 g2]
  from r[THEN conjunct1] g1
  have a: "\<exists>h' h2 sp oa. ?geomopt = (h', [SinglePointCall h2 sp, OptimizeCall h' oa], None) \<and>
      dict_items h2 (sp_log_kwargs sp) =
        Some [(PStr ''filename'', PPath ''geomopt.log''), (PStr ''filemode'', PStr ''w'')] \<and>
      dict_items h' (opt_log_kwargs oa) =
        Some [(PStr ''filename'', PPath ''geomopt.log''), (PStr ''filemode'', PStr ''a'')]"
    by auto
  from r[THEN conjunct2] g2
  have b: "\<exists>g' g2 sp ra. ?singlepoint = (g', [SinglePointCall g2 sp, RunCall g2 ra], None) \<and>
      dict_items g2 (sp_log_kwargs sp) =
        Some [(PStr ''filename'', PPath ''singlepoint.log''), (PStr ''filemode'', PStr ''w'')]"
    by auto
  show ?thesis using a b by blast
qed

end
